theory Spec2Isabelle
  imports Complex_Main
begin

section \<open>Python and numpy values\<close>

text \<open>
  The module \<^verbatim>\<open>model_utils.py\<close> post-processes the raw outputs of two
  instance-segmentation networks. Its numbers are numpy floats; they are modelled as
  exact reals, so every statement below is about the arithmetic the code writes down,
  not about IEEE rounding. The exception is \<^verbatim>\<open>expand_box\<close>, whose operations round: the
  rounding is a parameter of the model, and \<open>binary64\<close> below is the one of numpy's
  \<^verbatim>\<open>float64\<close>. A one-dimensional numpy array is a list. Exceptions are values: a
  function that can raise returns \<open>py_error + 'a\<close>, with \<open>Inl\<close> the exception.
\<close>

datatype py_error =
  ValueError | IndexError | KeyError | AssertionError | ZeroDivisionError | Cv2Error | Unmodelled

text \<open>
  The first five are Python's exceptions and \<open>Cv2Error\<close> is OpenCV's. The interface
  fixes the rank of every tensor and the code relies on it without a check; an array of
  another rank is outside this model, which stops there with \<open>Unmodelled\<close>. So it
  does for the two other inputs whose result numpy does not represent by a number or an
  exception: a scale of 0 (the quotient is \<^verbatim>\<open>inf\<close> or \<^verbatim>\<open>nan\<close>) and a class identifier
  outside the range of \<^verbatim>\<open>uint32\<close>.
\<close>

text \<open>Sequencing of calls that can raise.\<close>

definition bind_r :: "py_error + 'a \<Rightarrow> ('a \<Rightarrow> py_error + 'b) \<Rightarrow> py_error + 'b" where
  "bind_r m f = (case m of Inl e \<Rightarrow> Inl e | Inr v \<Rightarrow> f v)"

text \<open>
  An elementwise binary operation on two one-dimensional arrays, with numpy's
  broadcasting: equal lengths, or one operand of length 1; anything else raises
  \<^verbatim>\<open>ValueError\<close>.
\<close>

definition np_broadcast2 :: "('a \<Rightarrow> 'b \<Rightarrow> 'c) \<Rightarrow> 'a list \<Rightarrow> 'b list \<Rightarrow> py_error + 'c list" where
  "np_broadcast2 f xs ys =
     (if length xs = length ys then Inr (map2 f xs ys)
      else if length xs = 1 then Inr (map (f (hd xs)) ys)
      else if length ys = 1 then Inr (map (\<lambda>x. f x (hd ys)) xs)
      else Inl ValueError)"

text \<open>\<^verbatim>\<open>np.clip(a, a_min, a_max)\<close> is \<^verbatim>\<open>minimum(maximum(a, a_min), a_max)\<close>.\<close>

definition np_clip :: "real \<Rightarrow> real \<Rightarrow> real \<Rightarrow> real" where
  "np_clip a a_min a_max = min (max a a_min) a_max"

text \<open>
  \<^verbatim>\<open>scores.argsort()\<close>: the indices that sort the array in ascending order, by
  numpy's default kind, an introsort, which is not stable. It partitions a range only
  while the range has more than 17 elements and finishes every range by insertion, so an
  array of at most 17 elements is sorted by insertion alone and equal scores keep
  their index order. On a longer array the partitioning moves equal scores: 18 equal
  scores come out in the order \<open>0, 15, 14, \<dots>, 1, 16, 17\<close>. The order in which a
  longer array leaves equal scores is a parameter of the model: \<open>tie scores\<close> ranks the
  indices, equal scores come out by ascending rank, and equal ranks in index order.
\<close>

type_synonym tie_order = "real list \<Rightarrow> nat \<Rightarrow> nat"

definition argsort :: "tie_order \<Rightarrow> real list \<Rightarrow> nat list" where
  "argsort tie scores =
     (if length scores \<le> 17 then sort_key (\<lambda>i. scores ! i) [0..<length scores]
      else sort_key (\<lambda>i. scores ! i) (sort_key (tie scores) [0..<length scores]))"

text \<open>The slice \<^verbatim>\<open>xs[:k]\<close> for a Python integer \<open>k\<close>; a negative \<open>k\<close> counts from the end.\<close>

definition py_take :: "int \<Rightarrow> 'a list \<Rightarrow> 'a list" where
  "py_take k xs = (if 0 \<le> k then take (nat k) xs else take (length xs - nat (- k)) xs)"

section \<open>Geometry utilities\<close>

text \<open>
  Rounding to the nearest \<^verbatim>\<open>float64\<close>, ties to the even significand: a number
  between \<open>2 ^ e\<close> and \<open>2 ^ (e + 1)\<close> is rounded to a multiple of \<open>2 ^ (e - 52)\<close>. The
  range of the exponent is not bounded: overflow and the subnormal numbers are outside
  the model.
\<close>

definition round_even :: "real \<Rightarrow> int" where
  "round_even y =
     (if y - real_of_int \<lfloor>y\<rfloor> < 1 / 2 then \<lfloor>y\<rfloor>
      else if 1 / 2 < y - real_of_int \<lfloor>y\<rfloor> then \<lfloor>y\<rfloor> + 1
      else if even \<lfloor>y\<rfloor> then \<lfloor>y\<rfloor> else \<lfloor>y\<rfloor> + 1)"

definition binary64 :: "real \<Rightarrow> real" where
  "binary64 x =
     (if x = 0 then 0
      else real_of_int (round_even (x / 2 powr (real_of_int \<lfloor>log 2 \<bar>x\<bar>\<rfloor> - 52)))
             * 2 powr (real_of_int \<lfloor>log 2 \<bar>x\<bar>\<rfloor> - 52))"

text \<open>
  \<^verbatim>\<open>expand_box(box, scale)\<close>. The result is a new array \<^verbatim>\<open>np.zeros(box.shape)\<close>
  whose first four entries are written; \<^verbatim>\<open>box\<close> itself is only read. Reading
  \<^verbatim>\<open>box[2]\<close> or \<^verbatim>\<open>box[3]\<close> of a shorter array raises \<^verbatim>\<open>IndexError\<close>.

  Every operation is one of numpy scalars and rounds its result. \<open>rnd_box\<close> is the
  rounding of the type of the entries of \<^verbatim>\<open>box\<close>, in which \<^verbatim>\<open>box[2] - box[0]\<close> and
  \<^verbatim>\<open>box[2] + box[0]\<close> are computed. \<open>rnd\<close> is the rounding of the type of the
  products with the Python floats \<^verbatim>\<open>.5\<close> and \<^verbatim>\<open>scale\<close> and of the last sums: that type
  is the one of \<^verbatim>\<open>box\<close> under the promotion rules of NumPy 2 and \<^verbatim>\<open>float64\<close> under
  those of NumPy 1; \<^verbatim>\<open>scale\<close> is converted to it, and \<^verbatim>\<open>.5\<close> belongs to every binary
  format. For an array of \<^verbatim>\<open>float64\<close> both are \<open>binary64\<close>; exact arithmetic is the
  identity for both.
\<close>

definition expand_box ::
  "(real \<Rightarrow> real) \<Rightarrow> (real \<Rightarrow> real) \<Rightarrow> real list \<Rightarrow> real \<Rightarrow> py_error + real list" where
  "expand_box rnd_box rnd box scale =
     (if length box < 4 then Inl IndexError
      else
        let w_half = rnd (rnd_box (box ! 2 - box ! 0) * (1 / 2));
            h_half = rnd (rnd_box (box ! 3 - box ! 1) * (1 / 2));
            x_c = rnd (rnd_box (box ! 2 + box ! 0) * (1 / 2));
            y_c = rnd (rnd_box (box ! 3 + box ! 1) * (1 / 2));
            w_half = rnd (w_half * rnd scale);
            h_half = rnd (h_half * rnd scale);
            box_exp = replicate (length box) 0
        in Inr (box_exp[0 := rnd (x_c - w_half), 2 := rnd (x_c + w_half),
                        1 := rnd (y_c - h_half), 3 := rnd (y_c + h_half)]))"

text \<open>
  \<^verbatim>\<open>sanitize_coordinates(_x1, _x2, img_size, shift=0, padding=0)\<close>, on two
  one-dimensional arrays. \<^verbatim>\<open>img_size\<close> is an image dimension, a natural number.
\<close>

definition sanitize_coordinates ::
  "real list \<Rightarrow> real list \<Rightarrow> nat \<Rightarrow> real \<Rightarrow> real \<Rightarrow> real list \<times> real list" where
  "sanitize_coordinates x1_raw x2_raw img_size shift padding =
     (let x1s = map (\<lambda>v. (v + shift / 2) * real img_size) x1_raw;
          x2s = map (\<lambda>v. (v + shift / 2) * real img_size) x2_raw;
          x1 = map (\<lambda>v. np_clip (v - padding) 0 (real img_size)) x1s;
          x2 = map (\<lambda>v. np_clip (v + padding) 0 (real img_size)) x2s
      in (x1, x2))"

section \<open>Non-maximum suppression\<close>

text \<open>
  The overlap of the kept box \<open>i\<close> with a remaining box \<open>j\<close>, as one pass of the
  \<^verbatim>\<open>while\<close> loop computes it for every \<open>j\<close> of \<^verbatim>\<open>order[1:]\<close>. \<^verbatim>\<open>np.divide\<close>
  with \<^verbatim>\<open>where=base_area != 0\<close> leaves the zero of \<^verbatim>\<open>out\<close> where the denominator
  is zero.
\<close>

definition overlap ::
  "real list \<Rightarrow> real list \<Rightarrow> real list \<Rightarrow> real list \<Rightarrow> real list \<Rightarrow> real \<Rightarrow> nat \<Rightarrow> nat \<Rightarrow> real" where
  "overlap x1 y1 x2 y2 areas b i j =
     (let xx1 = max (x1 ! i) (x1 ! j);
          yy1 = max (y1 ! i) (y1 ! j);
          xx2 = min (x2 ! i) (x2 ! j);
          yy2 = min (y2 ! i) (y2 ! j);
          w = max 0 (xx2 - xx1 + b);
          h = max 0 (yy2 - yy1 + b);
          intersection = w * h;
          base_area = areas ! i + areas ! j - intersection
      in if base_area \<noteq> 0 then intersection / base_area else 0)"

text \<open>Every index of \<^verbatim>\<open>order\<close> is read in all five arrays; one out of range raises.\<close>

definition in_bounds ::
  "real list \<Rightarrow> real list \<Rightarrow> real list \<Rightarrow> real list \<Rightarrow> real list \<Rightarrow> nat \<Rightarrow> bool" where
  "in_bounds x1 y1 x2 y2 areas j =
     (j < length x1 \<and> j < length y1 \<and> j < length x2 \<and> j < length y2 \<and> j < length areas)"

text \<open>
  The \<^verbatim>\<open>while order.size > 0\<close> loop: the head of \<^verbatim>\<open>order\<close> is kept, and the rest
  is filtered by \<^verbatim>\<open>overlap <= thresh\<close>.
\<close>

fun nms_loop ::
  "real list \<Rightarrow> real list \<Rightarrow> real list \<Rightarrow> real list \<Rightarrow> real list \<Rightarrow> real \<Rightarrow> real \<Rightarrow>
   nat list \<Rightarrow> nat list \<Rightarrow> py_error + nat list" where
  "nms_loop x1 y1 x2 y2 areas b thresh [] keep = Inr keep"
| "nms_loop x1 y1 x2 y2 areas b thresh (i # rest) keep =
     (if \<not> list_all (in_bounds x1 y1 x2 y2 areas) (i # rest) then Inl IndexError
      else nms_loop x1 y1 x2 y2 areas b thresh
             (filter (\<lambda>j. overlap x1 y1 x2 y2 areas b i j \<le> thresh) rest) (keep @ [i]))"

text \<open>
  \<^verbatim>\<open>areas = (x2 - x1 + b) * (y2 - y1 + b)\<close>: three elementwise operations on
  arrays, each of which broadcasts or raises.
\<close>

definition box_areas ::
  "real list \<Rightarrow> real list \<Rightarrow> real list \<Rightarrow> real list \<Rightarrow> real \<Rightarrow> py_error + real list" where
  "box_areas x1 y1 x2 y2 b =
     bind_r (np_broadcast2 (\<lambda>u v. u - v + b) x2 x1) (\<lambda>dx.
     bind_r (np_broadcast2 (\<lambda>u v. u - v + b) y2 y1) (\<lambda>dy.
     np_broadcast2 (\<lambda>u v. u * v) dx dy))"

text \<open>
  The order in which the loop visits the boxes: \<^verbatim>\<open>scores.argsort()[::-1]\<close>, cut to
  \<^verbatim>\<open>order[:keep_top_k]\<close> when \<^verbatim>\<open>keep_top_k\<close> is true, which it is not for
  \<^verbatim>\<open>None\<close> and for 0.
\<close>

definition nms_order :: "tie_order \<Rightarrow> real list \<Rightarrow> int option \<Rightarrow> nat list" where
  "nms_order tie scores keep_top_k =
     (let order = rev (argsort tie scores) in
      case keep_top_k of
        None \<Rightarrow> order
      | Some k \<Rightarrow> if k = 0 then order else py_take k order)"

text \<open>
  \<^verbatim>\<open>nms(x1, y1, x2, y2, scores, thresh, include_boundaries=True, keep_top_k=None)\<close>
  returns the list \<^verbatim>\<open>keep\<close> of kept indices. \<open>tie\<close> is the parameter of \<open>argsort\<close>.
\<close>

definition nms ::
  "tie_order \<Rightarrow> real list \<Rightarrow> real list \<Rightarrow> real list \<Rightarrow> real list \<Rightarrow> real list \<Rightarrow> real \<Rightarrow> bool \<Rightarrow>
   int option \<Rightarrow> py_error + nat list" where
  "nms tie x1 y1 x2 y2 scores thresh include_boundaries keep_top_k =
     (let b = (if include_boundaries then 1 else 0) in
      bind_r (box_areas x1 y1 x2 y2 b) (\<lambda>areas.
        nms_loop x1 y1 x2 y2 areas b thresh (nms_order tie scores keep_top_k) []))"

section \<open>Arrays of higher rank\<close>

text \<open>
  A numpy array of rank two or more is its shape and its elements in row-major order,
  which is the order \<^verbatim>\<open>reshape\<close> and \<^verbatim>\<open>repeat\<close> work on. The shape is kept
  explicitly because an array with a dimension of size 0 still has a shape.
\<close>

record 'a ndarray =
  shape :: "nat list"
  elems :: "'a list"

definition np_size :: "'a ndarray \<Rightarrow> nat" where
  "np_size A = prod_list (shape A)"

text \<open>The entry \<^verbatim>\<open>A[i, j, k]\<close> of an array of rank three.\<close>

definition at3 :: "'a ndarray \<Rightarrow> nat \<Rightarrow> nat \<Rightarrow> nat \<Rightarrow> 'a" where
  "at3 A i j k = elems A ! ((i * (shape A ! 1) + j) * (shape A ! 2) + k)"

text \<open>The array of shape \<open>(d0, d1, d2)\<close> whose entry at \<open>(i, j, k)\<close> is \<open>f i j k\<close>.\<close>

definition nd3 :: "nat \<Rightarrow> nat \<Rightarrow> nat \<Rightarrow> (nat \<Rightarrow> nat \<Rightarrow> nat \<Rightarrow> 'a) \<Rightarrow> 'a ndarray" where
  "nd3 d0 d1 d2 f =
     \<lparr>shape = [d0, d1, d2],
      elems = map (\<lambda>p. f (p div (d1 * d2)) ((p div d2) mod d1) (p mod d2)) [0..<d0 * d1 * d2]\<rparr>"

text \<open>A one-dimensional array as an operand of an operation on arrays of rank three.\<close>

definition as3 :: "'a list \<Rightarrow> 'a ndarray" where
  "as3 xs = \<lparr>shape = [1, 1, length xs], elems = xs\<rparr>"

text \<open>Broadcasting of one dimension: equal sizes, or one of them 1.\<close>

definition bdim :: "nat \<Rightarrow> nat \<Rightarrow> nat option" where
  "bdim a b = (if a = b then Some a else if a = 1 then Some b else if b = 1 then Some a else None)"

text \<open>
  An elementwise binary operation on two arrays of rank three, with broadcasting;
  incompatible shapes raise \<^verbatim>\<open>ValueError\<close>.
\<close>

definition np_broadcast3 :: "('a \<Rightarrow> 'b \<Rightarrow> 'c) \<Rightarrow> 'a ndarray \<Rightarrow> 'b ndarray \<Rightarrow> py_error + 'c ndarray" where
  "np_broadcast3 f A B =
     (case (shape A, shape B) of
        ([a0, a1, a2], [b0, b1, b2]) \<Rightarrow>
          (case (bdim a0 b0, bdim a1 b1, bdim a2 b2) of
             (Some r0, Some r1, Some r2) \<Rightarrow>
               Inr (nd3 r0 r1 r2 (\<lambda>i j k.
                 f (at3 A (if a0 = 1 then 0 else i) (if a1 = 1 then 0 else j) (if a2 = 1 then 0 else k))
                   (at3 B (if b0 = 1 then 0 else i) (if b1 = 1 then 0 else j) (if b2 = 1 then 0 else k))))
           | _ \<Rightarrow> Inl ValueError)
      | _ \<Rightarrow> Inl Unmodelled)"

text \<open>\<^verbatim>\<open>np.arange(n, dtype=float)\<close>, \<^verbatim>\<open>np.repeat(xs, k)\<close> and \<^verbatim>\<open>np.reshape\<close>.\<close>

definition np_arange :: "nat \<Rightarrow> real list" where
  "np_arange n = map real [0..<n]"

definition np_repeat :: "'a list \<Rightarrow> nat \<Rightarrow> 'a list" where
  "np_repeat xs k = concat (map (replicate k) xs)"

definition np_reshape :: "'a list \<Rightarrow> nat list \<Rightarrow> py_error + 'a ndarray" where
  "np_reshape xs shp =
     (if length xs = prod_list shp then Inr \<lparr>shape = shp, elems = xs\<rparr> else Inl ValueError)"

text \<open>
  \<^verbatim>\<open>np.repeat(A, n, axis=-1)\<close>: every element is repeated in place, and the last
  dimension grows by the factor.
\<close>

definition np_repeat_last :: "'a ndarray \<Rightarrow> nat \<Rightarrow> 'a ndarray" where
  "np_repeat_last A n =
     \<lparr>shape = butlast (shape A) @ [last (shape A) * n], elems = np_repeat (elems A) n\<rparr>"

text \<open>\<^verbatim>\<open>np.transpose(A, (1, 0, 2))\<close> and \<^verbatim>\<open>np.transpose(A, (2, 0, 1))\<close>.\<close>

definition transpose_102 :: "'a ndarray \<Rightarrow> py_error + 'a ndarray" where
  "transpose_102 A =
     (case shape A of
        [a, b, c] \<Rightarrow> Inr (nd3 b a c (\<lambda>j i k. at3 A i j k))
      | _ \<Rightarrow> Inl ValueError)"

definition transpose_201 :: "'a ndarray \<Rightarrow> py_error + 'a ndarray" where
  "transpose_201 A =
     (case shape A of
        [a, b, c] \<Rightarrow> Inr (nd3 c a b (\<lambda>k i j. at3 A i j k))
      | _ \<Rightarrow> Inl ValueError)"

text \<open>
  The column \<^verbatim>\<open>A[:, j]\<close> of a matrix; a column that does not exist raises
  \<^verbatim>\<open>IndexError\<close>, and so does the index on an array of rank one.
\<close>

definition nd_column :: "'a ndarray \<Rightarrow> nat \<Rightarrow> py_error + 'a list" where
  "nd_column A j =
     (case shape A of
        [r, c] \<Rightarrow> if j < c then Inr (map (\<lambda>i. elems A ! (i * c + j)) [0..<r]) else Inl IndexError
      | [r] \<Rightarrow> Inl IndexError
      | _ \<Rightarrow> Inl Unmodelled)"

text \<open>A one-dimensional array as a cell of the store, and back.\<close>

definition vec :: "'a list \<Rightarrow> 'a ndarray" where
  "vec xs = \<lparr>shape = [length xs], elems = xs\<rparr>"

definition as_vec :: "'a ndarray \<Rightarrow> py_error + 'a list" where
  "as_vec A = (case shape A of [n] \<Rightarrow> Inr (elems A) | _ \<Rightarrow> Inl Unmodelled)"

text \<open>\<^verbatim>\<open>A[0]\<close>, and the items \<^verbatim>\<open>A[0], A[1], ...\<close> that iterating over \<^verbatim>\<open>A\<close> yields.\<close>

definition nd_first :: "'a ndarray \<Rightarrow> py_error + 'a ndarray" where
  "nd_first A =
     (case shape A of
        [] \<Rightarrow> Inl IndexError
      | d # ds \<Rightarrow>
          if d = 0 then Inl IndexError
          else Inr \<lparr>shape = ds, elems = take (prod_list ds) (elems A)\<rparr>)"

definition nd_items :: "'a ndarray \<Rightarrow> 'a ndarray list" where
  "nd_items A =
     (case shape A of
        [] \<Rightarrow> []
      | d # ds \<Rightarrow>
          map (\<lambda>i. \<lparr>shape = ds, elems = take (prod_list ds) (drop (i * prod_list ds) (elems A))\<rparr>)
            [0..<d])"

text \<open>
  \<^verbatim>\<open>A[i]\<close> for an index that may be out of range, \<^verbatim>\<open>A[idx]\<close> for an array of
  indices, and \<^verbatim>\<open>A[keep]\<close> for an array of booleans, whose length must be the first
  dimension. Each result is a new array.
\<close>

definition nd_item :: "'a ndarray \<Rightarrow> nat \<Rightarrow> py_error + 'a ndarray" where
  "nd_item A i = (if i < length (nd_items A) then Inr (nd_items A ! i) else Inl IndexError)"

definition nd_take :: "'a ndarray \<Rightarrow> nat list \<Rightarrow> py_error + 'a ndarray" where
  "nd_take A idx =
     (case shape A of
        [] \<Rightarrow> Inl IndexError
      | d # ds \<Rightarrow>
          if list_all (\<lambda>i. i < d) idx
          then Inr \<lparr>shape = length idx # ds,
                    elems = concat (map (\<lambda>i. take (prod_list ds) (drop (i * prod_list ds) (elems A))) idx)\<rparr>
          else Inl IndexError)"

definition nd_mask :: "'a ndarray \<Rightarrow> bool list \<Rightarrow> py_error + 'a ndarray" where
  "nd_mask A keep =
     (case shape A of
        [] \<Rightarrow> Inl IndexError
      | d # ds \<Rightarrow>
          if length keep \<noteq> d then Inl IndexError
          else nd_take A (filter (\<lambda>i. keep ! i) [0..<d]))"

text \<open>\<^verbatim>\<open>A[idx, j]\<close>: the entries of column \<open>j\<close> in the rows \<open>idx\<close> of a matrix.\<close>

definition nd_take_column :: "'a ndarray \<Rightarrow> nat list \<Rightarrow> nat \<Rightarrow> py_error + 'a list" where
  "nd_take_column A idx j =
     (case shape A of
        [r, c] \<Rightarrow>
          if j < c \<and> list_all (\<lambda>i. i < r) idx then Inr (map (\<lambda>i. elems A ! (i * c + j)) idx)
          else Inl IndexError
      | [r] \<Rightarrow> Inl IndexError
      | _ \<Rightarrow> Inl Unmodelled)"

text \<open>The in-place assignment \<^verbatim>\<open>A[:, j] = v\<close> to an existing column of a matrix.\<close>

definition nd_set_column :: "'a ndarray \<Rightarrow> nat \<Rightarrow> 'a list \<Rightarrow> 'a ndarray" where
  "nd_set_column A j v =
     (let c = shape A ! 1 in
      A\<lparr>elems := map (\<lambda>t. if t mod c = j then v ! (t div c) else elems A ! t) [0..<length (elems A)]\<rparr>)"

text \<open>\<^verbatim>\<open>np.zeros((h, w))\<close>.\<close>

definition np_zeros2 :: "nat \<Rightarrow> nat \<Rightarrow> real ndarray" where
  "np_zeros2 h w = \<lparr>shape = [h, w], elems = replicate (h * w) 0\<rparr>"

text \<open>
  A bound of a Python slice on a sequence of length \<open>n\<close> (a negative one counts from the
  end, and both are cut to the sequence), and the slice \<^verbatim>\<open>a:b\<close> as its start and length.
\<close>

definition py_index :: "nat \<Rightarrow> int \<Rightarrow> nat" where
  "py_index n i = (if i < 0 then nat (max 0 (int n + i)) else min (nat i) n)"

definition py_slice :: "nat \<Rightarrow> int \<Rightarrow> int \<Rightarrow> nat \<times> nat" where
  "py_slice n a b = (py_index n a, py_index n b - py_index n a)"

text \<open>The read \<^verbatim>\<open>A[r0:r1, c0:c1]\<close> of a matrix.\<close>

definition nd_slice2 :: "'a ndarray \<Rightarrow> int \<Rightarrow> int \<Rightarrow> int \<Rightarrow> int \<Rightarrow> py_error + 'a ndarray" where
  "nd_slice2 A r0 r1 c0 c1 =
     (case shape A of
        [h, w] \<Rightarrow>
          (let (rs, rl) = py_slice h r0 r1;
               (cs, cl) = py_slice w c0 c1
           in Inr \<lparr>shape = [rl, cl],
                    elems = concat (map (\<lambda>i. take cl (drop ((rs + i) * w + cs) (elems A))) [0..<rl])\<rparr>)
      | _ \<Rightarrow> Inl Unmodelled)"

text \<open>
  The assignment \<^verbatim>\<open>A[r0:r1, c0:c1] = V\<close> of a matrix to a window of a matrix. The
  value is broadcast to the window; a shape that does not fit raises \<^verbatim>\<open>ValueError\<close>.
\<close>

definition nd_assign2 :: "'a ndarray \<Rightarrow> int \<Rightarrow> int \<Rightarrow> int \<Rightarrow> int \<Rightarrow> 'a ndarray \<Rightarrow> py_error + 'a ndarray" where
  "nd_assign2 A r0 r1 c0 c1 V =
     (case (shape A, shape V) of
        ([h, w], [p, q]) \<Rightarrow>
          (let (rs, rl) = py_slice h r0 r1;
               (cs, cl) = py_slice w c0 c1
           in if (p = rl \<or> p = 1) \<and> (q = cl \<or> q = 1)
              then Inr \<lparr>shape = [h, w],
                        elems = map (\<lambda>t. let i = t div w; j = t mod w in
                                       if rs \<le> i \<and> i < rs + rl \<and> cs \<le> j \<and> j < cs + cl
                                       then elems V ! ((if p = 1 then 0 else i - rs) * q
                                                       + (if q = 1 then 0 else j - cs))
                                       else elems A ! t)
                                  [0..<h * w]\<rparr>
              else Inl ValueError)
      | _ \<Rightarrow> Inl Unmodelled)"

section \<open>The store\<close>

text \<open>
  numpy arrays are objects: \<^verbatim>\<open>boxes = outputs['boxes']\<close> names the caller's array, and
  \<^verbatim>\<open>boxes[:, 0::2] /= scale_x\<close> writes into it. The postprocessors therefore run on a
  store of arrays. An address is a natural number, every address below \<open>next_free\<close> is
  in use, and allocation takes the address \<open>next_free\<close>. An array that a function only
  computes with and neither returns nor writes to is passed as a value.
\<close>

record heap =
  cells :: "nat \<Rightarrow> real ndarray"
  next_free :: nat

definition alloc :: "heap \<Rightarrow> real ndarray \<Rightarrow> heap \<times> nat" where
  "alloc hp v =
     (hp\<lparr>cells := (cells hp)(next_free hp := v), next_free := Suc (next_free hp)\<rparr>, next_free hp)"

definition store :: "heap \<Rightarrow> nat \<Rightarrow> real ndarray \<Rightarrow> heap" where
  "store hp a v = hp\<lparr>cells := (cells hp)(a := v)\<rparr>"

text \<open>\<^verbatim>\<open>outputs[key]\<close> on the dictionary of output tensors.\<close>

definition py_getitem :: "(string \<Rightarrow> nat option) \<Rightarrow> string \<Rightarrow> py_error + nat" where
  "py_getitem d k = (case d k of None \<Rightarrow> Inl KeyError | Some a \<Rightarrow> Inr a)"

section \<open>Mask rasterizer of the prototype-mask variant\<close>

text \<open>
  The local function \<^verbatim>\<open>crop_mask(masks, boxes, padding=1)\<close> of
  \<^verbatim>\<open>yolact_segm_postprocess\<close>, one numpy call per line. \<^verbatim>\<open>h, w, n = np.shape(masks)\<close>
  raises \<^verbatim>\<open>ValueError\<close> on an array that is not of rank three. The grid \<^verbatim>\<open>cols\<close> is
  built from \<^verbatim>\<open>np.arange(h)\<close> repeated \<^verbatim>\<open>h\<close> times and reshaped to \<^verbatim>\<open>(w, h)\<close>.
  The comparisons give arrays of booleans, whose product is their conjunction.
\<close>

definition crop_mask :: "real ndarray \<Rightarrow> real ndarray \<Rightarrow> real \<Rightarrow> py_error + real ndarray" where
  "crop_mask masks boxes padding =
     (case shape masks of
        [h, w, n] \<Rightarrow>
          bind_r (nd_column boxes 0) (\<lambda>bx1.
          bind_r (nd_column boxes 2) (\<lambda>bx2.
          let (x1, x2) = sanitize_coordinates bx1 bx2 w 0 padding in
          bind_r (nd_column boxes 1) (\<lambda>by1.
          bind_r (nd_column boxes 3) (\<lambda>by2.
          let (y1, y2) = sanitize_coordinates by1 by2 h 0 padding in
          bind_r (np_reshape (np_repeat (np_arange w) h) [w, h]) (\<lambda>r2.
          bind_r (np_reshape (elems (np_repeat_last r2 n)) [h, w, n]) (\<lambda>rows.
          bind_r (np_reshape (np_repeat (np_arange h) h) [w, h]) (\<lambda>c2.
          bind_r (np_reshape (elems (np_repeat_last c2 n)) [h, w, n]) (\<lambda>cols.
          bind_r (transpose_102 rows) (\<lambda>rows.
          bind_r (np_broadcast3 (\<lambda>u v. v \<le> u) rows (as3 x1)) (\<lambda>masks_left.
          bind_r (np_broadcast3 (\<lambda>u v. u < v) rows (as3 x2)) (\<lambda>masks_right.
          bind_r (np_broadcast3 (\<lambda>u v. v \<le> u) cols (as3 y1)) (\<lambda>masks_up.
          bind_r (np_broadcast3 (\<lambda>u v. u < v) cols (as3 y2)) (\<lambda>masks_down.
          bind_r (np_broadcast3 (\<lambda>u v. u \<and> v) masks_left masks_right) (\<lambda>lr.
          bind_r (np_broadcast3 (\<lambda>u v. u \<and> v) lr masks_up) (\<lambda>lru.
          bind_r (np_broadcast3 (\<lambda>u v. u \<and> v) lru masks_down) (\<lambda>crop.
          np_broadcast3 (\<lambda>m c. m * (if c then 1 else 0)) masks crop))))))))))))))))
      | _ \<Rightarrow> Inl ValueError)"

text \<open>
  \<^verbatim>\<open>masks = proto_data @ masks.T\<close>: the product of the prototypes, of shape
  \<open>(H, W, K)\<close>, with the transposed coefficients, of shape \<open>(n, K)\<close>; the two \<open>K\<close> must
  agree. Then the logistic function \<^verbatim>\<open>1 / (1 + np.exp(-masks))\<close>, elementwise.
\<close>

definition proto_matmul :: "real ndarray \<Rightarrow> real ndarray \<Rightarrow> py_error + real ndarray" where
  "proto_matmul proto_data masks =
     (case (shape proto_data, shape masks) of
        ([h, w, k], [n, k']) \<Rightarrow>
          if k = k'
          then Inr (nd3 h w n (\<lambda>i j c.
                 sum_list (map (\<lambda>t. at3 proto_data i j t * elems masks ! (c * k' + t)) [0..<k])))
          else Inl ValueError
      | _ \<Rightarrow> Inl Unmodelled)"

definition sigmoid :: "real \<Rightarrow> real" where
  "sigmoid v = 1 / (1 + exp (- v))"

text \<open>
  The exponential has no finite expansion: \<open>sigmoid\<close> is not unfolded when a call is
  evaluated on concrete arrays.
\<close>

declare sigmoid_def [code del]

text \<open>
  \<^verbatim>\<open>cv2.resize\<close> belongs to OpenCV, not to this module: it is a parameter, a function of
  the source array and of the target width and height that returns an array or raises.
  \<^verbatim>\<open>mask > 0.5\<close> followed by the conversion to \<^verbatim>\<open>uint8\<close> gives an array of 0 and 1.
\<close>

type_synonym resize_fn = "real ndarray \<Rightarrow> nat \<Rightarrow> nat \<Rightarrow> py_error + real ndarray"

definition threshold_half :: "real ndarray \<Rightarrow> real ndarray" where
  "threshold_half A = A\<lparr>elems := map (\<lambda>v. if 1 / 2 < v then 1 else 0) (elems A)\<rparr>"

text \<open>
  The loop \<^verbatim>\<open>for mask_id, mask in enumerate(masks)\<close> of \<^verbatim>\<open>yolact_segm_postprocess\<close>.
  \<^verbatim>\<open>boxes\<close> is the array of boxes as lines 214 and 215 have left it. Every pass
  allocates a canvas \<^verbatim>\<open>np.zeros((h, w))\<close>, writes one window of the resized mask into
  it and appends it to \<^verbatim>\<open>ready_masks\<close>.
\<close>

fun ready_loop ::
  "resize_fn \<Rightarrow> nat \<Rightarrow> nat \<Rightarrow> real ndarray \<Rightarrow> int list \<Rightarrow> int list \<Rightarrow> int list \<Rightarrow> int list \<Rightarrow>
   heap \<Rightarrow> (nat \<times> real ndarray) list \<Rightarrow> nat list \<Rightarrow> py_error + heap \<times> nat list" where
  "ready_loop resize w h boxes x1 x2 y1 y2 hp [] ready_masks = Inr (hp, ready_masks)"
| "ready_loop resize w h boxes x1 x2 y1 y2 hp ((mask_id, one_mask) # rest) ready_masks =
     (case resize one_mask w h of
        Inl e \<Rightarrow> Inl e
      | Inr resized \<Rightarrow>
          (case nd_item boxes mask_id of
             Inl e \<Rightarrow> Inl e
           | Inr row \<Rightarrow>
               if length (elems row) \<noteq> 4 then Inl ValueError
               else
                 (let b_x1 = \<lceil>elems row ! 0\<rceil>;
                      b_y1 = \<lceil>elems row ! 1\<rceil>;
                      b_x2 = \<lceil>elems row ! 2\<rceil>;
                      b_y2 = \<lceil>elems row ! 3\<rceil>;
                      im_mask = np_zeros2 h w;
                      height = max (b_y2 - b_y1) (y2 ! mask_id - y1 ! mask_id);
                      width = max (b_x2 - b_x1) (x2 ! mask_id - x1 ! mask_id)
                  in case nd_slice2 (threshold_half resized)
                            (y1 ! mask_id) (y1 ! mask_id + height)
                            (x1 ! mask_id) (x1 ! mask_id + width) of
                       Inl e \<Rightarrow> Inl e
                     | Inr patch \<Rightarrow>
                         (case nd_assign2 im_mask b_y1 (b_y1 + height) b_x1 (b_x1 + width) patch of
                            Inl e \<Rightarrow> Inl e
                          | Inr im \<Rightarrow>
                              (case alloc hp im of
                                 (hp', a) \<Rightarrow>
                                   ready_loop resize w h boxes x1 x2 y1 y2 hp' rest
                                     (ready_masks @ [a]))))))"

text \<open>
  What \<^verbatim>\<open>yolact_segm_postprocess\<close> returns: the list \<^verbatim>\<open>[] * 4\<close>, which is the empty
  list, or the tuple \<^verbatim>\<open>(boxes, score, classes, ready_masks)\<close>.
\<close>

datatype segm_result = PyEmptyList | SegmTuple nat nat nat "nat list"

text \<open>
  \<^verbatim>\<open>yolact_segm_postprocess(boxes, masks, score, classes, proto_data, w, h,
  score_threshold=0, shift_x=0, shift_y=0)\<close>. \<^verbatim>\<open>boxes\<close>, \<^verbatim>\<open>score\<close> and \<^verbatim>\<open>classes\<close> are
  addresses: the function writes into \<^verbatim>\<open>boxes\<close> and returns all three. The filter by
  \<^verbatim>\<open>score_threshold\<close> rebinds the four names to new arrays.
\<close>

definition yolact_segm_postprocess ::
  "resize_fn \<Rightarrow> heap \<Rightarrow> nat \<Rightarrow> real ndarray \<Rightarrow> nat \<Rightarrow> nat \<Rightarrow> real ndarray \<Rightarrow> nat \<Rightarrow> nat \<Rightarrow>
   real \<Rightarrow> real \<Rightarrow> real \<Rightarrow> py_error + heap \<times> segm_result" where
  "yolact_segm_postprocess resize hp boxes masks score classes proto_data w h
     score_threshold shift_x shift_y =
     bind_r
       (if 0 < score_threshold then
          bind_r (as_vec (cells hp score)) (\<lambda>score_v.
          let keep = map (\<lambda>s. score_threshold < s) score_v in
          bind_r (nd_mask (cells hp score) keep) (\<lambda>score_f.
          let (hp, score) = alloc hp score_f in
          bind_r (nd_mask (cells hp boxes) keep) (\<lambda>boxes_f.
          let (hp, boxes) = alloc hp boxes_f in
          bind_r (nd_mask masks keep) (\<lambda>masks.
          bind_r (nd_mask (cells hp classes) keep) (\<lambda>classes_f.
          let (hp, classes) = alloc hp classes_f in
          Inr (hp, boxes, masks, score, classes, np_size score_f = 0))))))
        else Inr (hp, boxes, masks, score, classes, False))
       (\<lambda>(hp, boxes, masks, score, classes, empty).
          if empty then Inr (hp, PyEmptyList)
          else
            bind_r (proto_matmul proto_data masks) (\<lambda>m.
            bind_r (crop_mask (m\<lparr>elems := map sigmoid (elems m)\<rparr>) (cells hp boxes) 1) (\<lambda>m.
            bind_r (transpose_201 m) (\<lambda>m.
            bind_r (nd_column (cells hp boxes) 0) (\<lambda>c0.
            bind_r (nd_column (cells hp boxes) 2) (\<lambda>c2.
            bind_r (nd_column (cells hp boxes) 1) (\<lambda>c1.
            bind_r (nd_column (cells hp boxes) 3) (\<lambda>c3.
            let x1 = map ceiling (fst (sanitize_coordinates c0 c2 w 0 0));
                x2 = map ceiling (snd (sanitize_coordinates c0 c2 w 0 0));
                y1 = map ceiling (fst (sanitize_coordinates c1 c3 h 0 0));
                y2 = map ceiling (snd (sanitize_coordinates c1 c3 h 0 0));
                (nx1, nx2) = sanitize_coordinates c0 c2 w shift_x 0;
                hp = store hp boxes (nd_set_column (nd_set_column (cells hp boxes) 0 nx1) 2 nx2);
                (ny1, ny2) = sanitize_coordinates c1 c3 h shift_y 0;
                hp = store hp boxes (nd_set_column (nd_set_column (cells hp boxes) 1 ny1) 3 ny2)
            in bind_r (ready_loop resize w h (cells hp boxes) x1 x2 y1 y2 hp
                         (zip [0..<length (nd_items m)] (nd_items m)) [])
                 (\<lambda>(hp, ready_masks). Inr (hp, SegmTuple boxes score classes ready_masks))))))))))"

section \<open>Mask rasterizer of the region-proposal variant\<close>




section \<open>Detector-specific postprocessors\<close>





text \<open>
  The loop \<^verbatim>\<open>for cls in range(1, num_classes)\<close> of \<^verbatim>\<open>yolact_postprocess\<close>. \<^verbatim>\<open>conf\<close>
  is the transpose of \<^verbatim>\<open>outputs['conf'][0]\<close>, so its row \<^verbatim>\<open>conf[cls, :]\<close> is the column
  \<open>cls\<close> of the latter. A class without a score above the threshold is skipped.
\<close>

fun class_loop ::
  "tie_order \<Rightarrow> real ndarray \<Rightarrow> real ndarray \<Rightarrow> nat \<Rightarrow> nat \<Rightarrow> real \<Rightarrow> nat list \<Rightarrow>
   nat list list \<times> nat list list \<times> real list list \<Rightarrow>
   py_error + nat list list \<times> nat list list \<times> real list list" where
  "class_loop tie boxes conf0 frame_width frame_height conf_threshold [] acc = Inr acc"
| "class_loop tie boxes conf0 frame_width frame_height conf_threshold (cls # rest)
     (idx_lst, cls_lst, scr_lst) =
     (case nd_column conf0 cls of
        Inl e \<Rightarrow> Inl e
      | Inr all_scores \<Rightarrow>
          (let cls_scores = filter (\<lambda>s. conf_threshold < s) all_scores;
               idx = filter (\<lambda>i. conf_threshold < all_scores ! i) [0..<length all_scores]
           in if length cls_scores = 0
              then class_loop tie boxes conf0 frame_width frame_height conf_threshold rest
                     (idx_lst, cls_lst, scr_lst)
              else
                (case nd_take_column boxes idx 0 of Inl e \<Rightarrow> Inl e | Inr bx1 \<Rightarrow>
                (case nd_take_column boxes idx 2 of Inl e \<Rightarrow> Inl e | Inr bx2 \<Rightarrow>
                (case nd_take_column boxes idx 1 of Inl e \<Rightarrow> Inl e | Inr by1 \<Rightarrow>
                (case nd_take_column boxes idx 3 of Inl e \<Rightarrow> Inl e | Inr by2 \<Rightarrow>
                (case nms tie (fst (sanitize_coordinates bx1 bx2 frame_width 0 0))
                          (fst (sanitize_coordinates by1 by2 frame_height 0 0))
                          (snd (sanitize_coordinates bx1 bx2 frame_width 0 0))
                          (snd (sanitize_coordinates by1 by2 frame_height 0 0))
                          cls_scores (1 / 2) False None of
                   Inl e \<Rightarrow> Inl e
                 | Inr keep \<Rightarrow>
                     class_loop tie boxes conf0 frame_width frame_height conf_threshold rest
                       (idx_lst @ [map ((!) idx) keep],
                        cls_lst @ [replicate (length keep) cls],
                        scr_lst @ [map ((!) cls_scores) keep]))))))))"

text \<open>
  What \<^verbatim>\<open>yolact_postprocess\<close> returns as \<^verbatim>\<open>masks\<close>: the list of masks of
  \<^verbatim>\<open>yolact_segm_postprocess\<close>, or, when \<^verbatim>\<open>np.size(boxes)\<close> is 0, the array of mask
  coefficients.
\<close>

datatype masks_result = MaskList "nat list" | MaskArray nat

text \<open>
  \<^verbatim>\<open>yolact_postprocess(outputs, scale_x, scale_y, frame_height, frame_width,
  input_height, input_width, conf_threshold)\<close>. \<^verbatim>\<open>np.concatenate\<close> of an empty list
  raises \<^verbatim>\<open>ValueError\<close>; the division by \<^verbatim>\<open>frame_width\<close> or \<^verbatim>\<open>frame_height\<close> is one
  of Python numbers. \<^verbatim>\<open>boxes[idx]\<close> and \<^verbatim>\<open>masks[idx]\<close> are new arrays. \<open>tie\<close> is
  the parameter of \<open>argsort\<close>.
\<close>

definition yolact_postprocess ::
  "tie_order \<Rightarrow> resize_fn \<Rightarrow> heap \<Rightarrow> (string \<Rightarrow> nat option) \<Rightarrow> real \<Rightarrow> real \<Rightarrow> nat \<Rightarrow> nat \<Rightarrow>
   nat \<Rightarrow> nat \<Rightarrow> real \<Rightarrow> py_error + heap \<times> (nat \<times> nat \<times> nat \<times> masks_result)" where
  "yolact_postprocess tie resize hp outputs scale_x scale_y frame_height frame_width
     input_height input_width conf_threshold =
     bind_r (py_getitem outputs ''boxes'') (\<lambda>a_boxes.
     bind_r (nd_first (cells hp a_boxes)) (\<lambda>boxes.
     bind_r (py_getitem outputs ''conf'') (\<lambda>a_conf.
     bind_r (nd_first (cells hp a_conf)) (\<lambda>conf0.
     bind_r (py_getitem outputs ''mask'') (\<lambda>a_mask.
     bind_r (nd_first (cells hp a_mask)) (\<lambda>masks.
     bind_r (py_getitem outputs ''proto'') (\<lambda>a_proto.
     bind_r (nd_first (cells hp a_proto)) (\<lambda>proto.
     case shape conf0 of
       [n, num_classes] \<Rightarrow>
         if frame_width = 0 \<or> frame_height = 0 then Inl ZeroDivisionError
         else
           (let shift_x = (real input_width - real frame_width * scale_x) / real frame_width;
                shift_y = (real input_height - real frame_height * scale_y) / real frame_height
            in bind_r (class_loop tie boxes conf0 frame_width frame_height conf_threshold
                         [1..<num_classes] ([], [], []))
                 (\<lambda>(idx_lst, cls_lst, scr_lst).
               if idx_lst = [] then Inl ValueError
               else
                 (let idx2 = rev (argsort tie (concat scr_lst));
                      scores = map ((!) (concat scr_lst)) idx2;
                      idx = map ((!) (concat idx_lst)) idx2;
                      classes = map ((!) (concat cls_lst)) idx2
                  in bind_r (nd_take boxes idx) (\<lambda>boxes_g.
                     bind_r (nd_take masks idx) (\<lambda>masks_g.
                     let (hp, a_scores) = alloc hp (vec scores);
                         (hp, a_classes) = alloc hp (vec (map real classes));
                         (hp, a_boxes_g) = alloc hp boxes_g;
                         (hp, a_masks_g) = alloc hp masks_g
                     in if 0 < np_size boxes_g
                        then
                          bind_r (yolact_segm_postprocess resize hp a_boxes_g masks_g a_scores
                                    a_classes proto frame_width frame_height 0 shift_x shift_y)
                            (\<lambda>(hp, r).
                               case r of
                                 PyEmptyList \<Rightarrow> Inl ValueError
                               | SegmTuple b s c m \<Rightarrow> Inr (hp, (s, c, b, MaskList m)))
                        else Inr (hp, (a_scores, a_classes, a_boxes_g, MaskArray a_masks_g)))))))
     | _ \<Rightarrow> Inl Unmodelled))))))))"

section \<open>Topology dispatcher\<close>

text \<open>
  \<^verbatim>\<open>check_model(net)\<close> reads two dictionaries of the network: \<^verbatim>\<open>net.input_info\<close>,
  from input names to the shape of \<^verbatim>\<open>in_info.input_data\<close>, and \<^verbatim>\<open>net.outputs\<close>, of which
  only the keys are used (the field \<open>output_keys\<close>). A dictionary keeps its insertion order, so it is an association
  list with distinct keys.
\<close>

record net =
  input_info :: "(string \<times> nat list) list"
  output_keys :: "string list"

datatype postprocessor = Mask_rcnn_postprocess | Yolact_postprocess

text \<open>The table \<^verbatim>\<open>MODEL_ATTRIBUTES\<close>: required outputs and postprocessor per model type.\<close>

definition MODEL_ATTRIBUTES :: "string \<Rightarrow> (string list \<times> postprocessor) option" where
  "MODEL_ATTRIBUTES =
     [''mask_rcnn'' \<mapsto> ([''boxes'', ''scores'', ''classes'', ''raw_masks''], Mask_rcnn_postprocess),
      ''yolact'' \<mapsto> ([''boxes'', ''conf'', ''proto'', ''mask''], Yolact_postprocess)]"

text \<open>
  Python's truth value of a tuple of two elements, which is what
  \<^verbatim>\<open>assert (condition, message)\<close> tests: a tuple is false only when it is empty.
\<close>

definition py_bool_pair :: "'a \<times> 'b \<Rightarrow> bool" where
  "py_bool_pair p = True"

text \<open>Python's truth value of \<^verbatim>\<open>image_info_input\<close>: \<^verbatim>\<open>None\<close> and the empty string are false.\<close>

definition py_bool_name :: "string option \<Rightarrow> bool" where
  "py_bool_name v = (case v of None \<Rightarrow> False | Some n \<Rightarrow> n \<noteq> [])"

text \<open>
  \<^verbatim>\<open>check_model(net)\<close>. Every \<^verbatim>\<open>assert\<close> that fails raises \<^verbatim>\<open>AssertionError\<close>. The
  third assertion is written \<^verbatim>\<open>assert (set(...).issubset(net.outputs.keys()), '...')\<close>:
  its operand is the tuple of the condition and the message.
\<close>

definition check_model :: "net \<Rightarrow> py_error + (string \<times> string option \<times> nat list \<times> postprocessor)" where
  "check_model net =
     (let num_inputs = length (input_info net) in
      if \<not> num_inputs \<le> 2 then Inl AssertionError
      else
        let image_inputs = map fst (filter (\<lambda>(input_name, shp). length shp = 4) (input_info net)) in
        if length image_inputs \<noteq> 1 then Inl AssertionError
        else
          let image_input = hd image_inputs in
          bind_r
            (if num_inputs = 2 then
               (let infos = map fst (filter (\<lambda>(input_name, shp). length shp = 2 \<and> last shp = 3)
                                       (input_info net)) in
                if length infos \<noteq> 1 then Inl AssertionError else Inr (Some (hd infos)))
             else Inr None)
            (\<lambda>image_info_input.
               let model_type = (if py_bool_name image_info_input then ''mask_rcnn'' else ''yolact'') in
               case MODEL_ATTRIBUTES model_type of
                 None \<Rightarrow> Inl KeyError
               | Some (required_outputs, the_postprocessor) \<Rightarrow>
                   if \<not> py_bool_pair (set required_outputs \<subseteq> set (output_keys net),
                                       ''Demo supports only topologies with the following output keys: '')
                   then Inl AssertionError
                   else
                     (case map_of (input_info net) image_input of
                        None \<Rightarrow> Inl KeyError
                      | Some input_shape \<Rightarrow>
                          if hd input_shape \<noteq> 1 then Inl AssertionError
                          else Inr (image_input, image_info_input, input_shape, the_postprocessor))))"

section \<open>Properties of the geometry utilities\<close>

lemma bind_r_Inl [simp]: "bind_r (Inl e) f = Inl e"
  by (simp add: bind_r_def)

lemma bind_r_Inr [simp]: "bind_r (Inr v) f = f v"
  by (simp add: bind_r_def)

lemma round_even_error: "\<bar>real_of_int (round_even y) - y\<bar> \<le> 1 / 2"
  unfolding round_even_def by (auto simp: abs_if) linarith+

lemma round_even_int [simp]: "round_even (real_of_int m) = m"
  by (simp add: round_even_def)

lemma binary64_error: "\<bar>binary64 x - x\<bar> \<le> (1 / 2 ^ 53) * \<bar>x\<bar>"
proof (cases "x = 0")
  case True
  then show ?thesis by (simp add: binary64_def)
next
  case False
  define e where "e = \<lfloor>log 2 \<bar>x\<bar>\<rfloor>"
  define q :: real where "q = 2 powr (real_of_int e - 52)"
  have q: "0 < q" by (simp add: q_def)
  have b: "binary64 x = real_of_int (round_even (x / q)) * q"
    using False by (simp add: binary64_def e_def q_def)
  have "\<bar>binary64 x - x\<bar> = \<bar>real_of_int (round_even (x / q)) - x / q\<bar> * q"
  proof -
    have "binary64 x - x = (real_of_int (round_even (x / q)) - x / q) * q"
      using q by (simp add: b field_simps)
    then show ?thesis using q by (simp add: abs_mult)
  qed
  also have "\<dots> \<le> (1 / 2) * q"
    using round_even_error[of "x / q"] q by (intro mult_right_mono) simp_all
  also have "\<dots> = 2 powr (real_of_int e - 53)"
    by (simp add: q_def powr_diff)
  also have "\<dots> \<le> 2 powr (log 2 \<bar>x\<bar> - 53)"
    by (intro powr_mono) (simp_all add: e_def)
  also have "\<dots> = (1 / 2 ^ 53) * \<bar>x\<bar>"
    using False by (simp add: powr_diff)
  finally show ?thesis .
qed


lemma binary64_eval:
  assumes "2 powr real_of_int e \<le> \<bar>x\<bar>" "\<bar>x\<bar> < 2 powr (real_of_int e + 1)"
  shows "binary64 x = real_of_int (round_even (x / 2 powr (real_of_int e - 52)))
                        * 2 powr (real_of_int e - 52)"
proof -
  have "0 < 2 powr real_of_int e" by simp
  with assms(1) have x: "0 < \<bar>x\<bar>" by linarith
  have "real_of_int e \<le> log 2 \<bar>x\<bar>" using assms(1) x by (simp add: le_log_iff)
  moreover have "log 2 \<bar>x\<bar> < real_of_int e + 1" using assms(2) x by (simp add: log_less_iff)
  ultimately have "\<lfloor>log 2 \<bar>x\<bar>\<rfloor> = e" by linarith
  then show ?thesis using x by (simp add: binary64_def)
qed

lemma binary64_int:
  assumes "\<bar>m\<bar> < 2 ^ 53"
  shows "binary64 (real_of_int m) = real_of_int m"
proof (cases "m = 0")
  case True
  then show ?thesis by (simp add: binary64_def)
next
  case False
  define x where "x = real_of_int m"
  define e where "e = \<lfloor>log 2 \<bar>x\<bar>\<rfloor>"
  have x1: "1 \<le> \<bar>x\<bar>" using False by (simp add: x_def)
  have x2: "\<bar>x\<bar> < 2 ^ 53"
  proof -
    have "real_of_int \<bar>m\<bar> < real_of_int (2 ^ 53)" using assms by (simp only: of_int_less_iff)
    then show ?thesis by (simp add: x_def)
  qed
  have "log 2 \<bar>x\<bar> < 53"
    using x1 x2 by (simp add: log_less_iff)
  then have e52: "e \<le> 52" unfolding e_def by linarith
  define n where "n = nat (52 - e)"
  have en: "real_of_int e - 52 = - real n" using e52 by (simp add: n_def)
  have q: "2 powr (real_of_int e - 52) = 1 / 2 ^ n"
    by (simp add: en powr_minus powr_realpow field_simps)
  have "x / (1 / 2 ^ n) = real_of_int (m * 2 ^ n)" by (simp add: x_def)
  then have "round_even (x / (1 / 2 ^ n)) = m * 2 ^ n" by (simp only: round_even_int)
  moreover have "x \<noteq> 0" using x1 by auto
  ultimately have "binary64 x = real_of_int (m * 2 ^ n) * (1 / 2 ^ n)"
    by (simp add: binary64_def e_def[symmetric] q)
  then show ?thesis by (simp add: x_def)
qed

lemma binary64_small [simp]:
  "binary64 1 = 1" "binary64 2 = 2" "binary64 3 = 3" "binary64 4 = 4" "binary64 6 = 6"
  "binary64 (- 1) = - 1" "binary64 (- 2) = - 2"
  using binary64_int[of 1] binary64_int[of 2] binary64_int[of 3] binary64_int[of 4]
    binary64_int[of 6] binary64_int[of "- 1"] binary64_int[of "- 2"]
  by simp_all

text \<open>Propagation of relative rounding errors; \<open>p\<close> stands for \<open>1 + u\<close>.\<close>

lemma rel_abs:
  assumes "\<bar>a - A\<bar> \<le> (p ^ k - 1) * \<bar>A\<bar>"
  shows "\<bar>a\<bar> \<le> p ^ k * \<bar>A :: real\<bar>"
proof -
  have "\<bar>a\<bar> \<le> \<bar>A\<bar> + \<bar>a - A\<bar>" by simp
  also have "\<dots> \<le> \<bar>A\<bar> + (p ^ k - 1) * \<bar>A\<bar>" using assms by simp
  also have "\<dots> = p ^ k * \<bar>A\<bar>" by (simp add: algebra_simps)
  finally show ?thesis .
qed

lemma rel_rnd:
  assumes r: "\<forall>x. \<bar>rnd x - x\<bar> \<le> u * \<bar>x\<bar>" and u: "0 \<le> u"
    and a: "\<bar>a - A\<bar> \<le> ((1 + u) ^ k - 1) * \<bar>A\<bar>"
  shows "\<bar>rnd a - A\<bar> \<le> ((1 + u) ^ Suc k - 1) * \<bar>A :: real\<bar>"
proof -
  have "\<bar>rnd a - A\<bar> \<le> \<bar>rnd a - a\<bar> + \<bar>a - A\<bar>" by simp
  also have "\<dots> \<le> u * \<bar>a\<bar> + ((1 + u) ^ k - 1) * \<bar>A\<bar>"
    using r a by (simp add: add_mono)
  also have "\<dots> \<le> u * ((1 + u) ^ k * \<bar>A\<bar>) + ((1 + u) ^ k - 1) * \<bar>A\<bar>"
    using rel_abs[OF a] u by (simp add: mult_left_mono)
  also have "\<dots> = ((1 + u) ^ Suc k - 1) * \<bar>A\<bar>" by (simp add: algebra_simps)
  finally show ?thesis .
qed

lemma rel_mult:
  assumes p: "1 \<le> p"
    and a: "\<bar>a - A\<bar> \<le> (p ^ k - 1) * \<bar>A\<bar>" and c: "\<bar>c - C\<bar> \<le> (p ^ m - 1) * \<bar>C\<bar>"
  shows "\<bar>a * c - A * C\<bar> \<le> (p ^ (k + m) - 1) * \<bar>A * C :: real\<bar>"
proof -
  have pk: "0 \<le> p ^ k - 1" using p by simp
  have "a * c - A * C = (a - A) * c + A * (c - C)" by (simp add: algebra_simps)
  then have "\<bar>a * c - A * C\<bar> \<le> \<bar>a - A\<bar> * \<bar>c\<bar> + \<bar>A\<bar> * \<bar>c - C\<bar>"
    by (metis abs_triangle_ineq abs_mult)
  also have "\<dots> \<le> ((p ^ k - 1) * \<bar>A\<bar>) * (p ^ m * \<bar>C\<bar>) + \<bar>A\<bar> * ((p ^ m - 1) * \<bar>C\<bar>)"
    using a rel_abs[OF c] c pk by (intro add_mono mult_mono) simp_all
  also have "\<dots> = (p ^ (k + m) - 1) * \<bar>A * C\<bar>"
    by (simp add: algebra_simps power_add abs_mult)
  finally show ?thesis .
qed

lemma rel_exact: "\<bar>a - a\<bar> \<le> ((1 + u) ^ 0 - 1) * \<bar>a :: real\<bar>"
  by simp

text \<open>One coordinate of \<open>expand_box\<close>: the centre plus or minus the scaled half extent.\<close>

lemma expand_coordinate:
  fixes hi lo s u :: real and rnd_box rnd :: "real \<Rightarrow> real"
  assumes rb: "\<forall>x. \<bar>rnd_box x - x\<bar> \<le> u * \<bar>x\<bar>" and r: "\<forall>x. \<bar>rnd x - x\<bar> \<le> u * \<bar>x\<bar>"
    and u: "0 \<le> u"
  defines "xc \<equiv> rnd (rnd_box (hi + lo) * (1 / 2))"
    and "wh \<equiv> rnd (rnd (rnd_box (hi - lo) * (1 / 2)) * rnd s)"
  shows "\<bar>rnd (xc - wh) - ((hi + lo) / 2 - s * (hi - lo) / 2)\<bar>
           \<le> ((1 + u) ^ 3 - 1) * \<bar>(hi + lo) / 2\<bar> + ((1 + u) ^ 5 - 1) * \<bar>s * (hi - lo) / 2\<bar>"
    and "\<bar>rnd (xc + wh) - ((hi + lo) / 2 + s * (hi - lo) / 2)\<bar>
           \<le> ((1 + u) ^ 3 - 1) * \<bar>(hi + lo) / 2\<bar> + ((1 + u) ^ 5 - 1) * \<bar>s * (hi - lo) / 2\<bar>"
proof -
  let ?p = "1 + u"
  let ?X = "(hi + lo) / 2" and ?W = "s * (hi - lo) / 2"
  have p: "1 \<le> ?p" using u by simp
  have half: "\<bar>a * (1 / 2) - A / 2\<bar> \<le> (?p ^ k - 1) * \<bar>A / 2\<bar>"
    if "\<bar>a - A\<bar> \<le> (?p ^ k - 1) * \<bar>A\<bar>" for a A :: real and k
  proof -
    have "\<bar>a * (1 / 2) - A / 2\<bar> = \<bar>a - A\<bar> / 2" by (simp add: field_simps abs_divide)
    also have "\<dots> \<le> ((?p ^ k - 1) * \<bar>A\<bar>) / 2" using that by simp
    finally show ?thesis by simp
  qed
  have s1: "\<bar>rnd_box (hi + lo) - (hi + lo)\<bar> \<le> (?p ^ Suc 0 - 1) * \<bar>hi + lo\<bar>"
    by (rule rel_rnd[OF rb u rel_exact])
  have X: "\<bar>xc - ?X\<bar> \<le> (?p ^ 2 - 1) * \<bar>?X\<bar>"
    unfolding xc_def using rel_rnd[OF r u half[OF s1]] by (simp add: numeral_2_eq_2)
  have d1: "\<bar>rnd_box (hi - lo) - (hi - lo)\<bar> \<le> (?p ^ Suc 0 - 1) * \<bar>hi - lo\<bar>"
    by (rule rel_rnd[OF rb u rel_exact])
  have w0: "\<bar>rnd (rnd_box (hi - lo) * (1 / 2)) - (hi - lo) / 2\<bar> \<le> (?p ^ 2 - 1) * \<bar>(hi - lo) / 2\<bar>"
    using rel_rnd[OF r u half[OF d1]] by (simp add: numeral_2_eq_2)
  have sc: "\<bar>rnd s - s\<bar> \<le> (?p ^ 1 - 1) * \<bar>s\<bar>"
    using rel_rnd[OF r u rel_exact, of s] by simp
  have pr: "\<bar>rnd (rnd_box (hi - lo) * (1 / 2)) * rnd s - (hi - lo) / 2 * s\<bar>
              \<le> (?p ^ 3 - 1) * \<bar>(hi - lo) / 2 * s\<bar>"
    using rel_mult[OF p w0 sc] by simp
  have W: "\<bar>wh - ?W\<bar> \<le> (?p ^ 4 - 1) * \<bar>?W\<bar>"
  proof -
    have eq: "(hi - lo) / 2 * s = ?W" by simp
    have s4: "Suc 3 = 4" by simp
    have "\<bar>wh - (hi - lo) / 2 * s\<bar> \<le> (?p ^ Suc 3 - 1) * \<bar>(hi - lo) / 2 * s\<bar>"
      unfolding wh_def by (rule rel_rnd[OF r u pr])
    then show ?thesis by (simp only: eq s4)
  qed
  have ax: "\<bar>xc\<bar> \<le> ?p ^ 2 * \<bar>?X\<bar>" by (rule rel_abs[OF X])
  have aw: "\<bar>wh\<bar> \<le> ?p ^ 4 * \<bar>?W\<bar>" by (rule rel_abs[OF W])
  have fin: "\<bar>rnd t - T\<bar> \<le> (?p ^ 3 - 1) * \<bar>?X\<bar> + (?p ^ 5 - 1) * \<bar>?W\<bar>"
    if t: "\<bar>t\<bar> \<le> \<bar>xc\<bar> + \<bar>wh\<bar>" and T: "\<bar>t - T\<bar> \<le> \<bar>xc - ?X\<bar> + \<bar>wh - ?W\<bar>" for t T
  proof -
    have "\<bar>rnd t - T\<bar> \<le> \<bar>rnd t - t\<bar> + \<bar>t - T\<bar>" by simp
    also have "\<dots> \<le> u * \<bar>t\<bar> + (\<bar>xc - ?X\<bar> + \<bar>wh - ?W\<bar>)"
      using r T by (simp add: add_mono)
    also have "\<dots> \<le> u * (?p ^ 2 * \<bar>?X\<bar> + ?p ^ 4 * \<bar>?W\<bar>)
        + ((?p ^ 2 - 1) * \<bar>?X\<bar> + (?p ^ 4 - 1) * \<bar>?W\<bar>)"
    proof (intro add_mono mult_left_mono u)
      show "\<bar>t\<bar> \<le> ?p ^ 2 * \<bar>?X\<bar> + ?p ^ 4 * \<bar>?W\<bar>" using t ax aw by linarith
    qed (rule X, rule W)
    also have "\<dots> = (?p ^ 3 - 1) * \<bar>?X\<bar> + (?p ^ 5 - 1) * \<bar>?W\<bar>"
      by (simp add: algebra_simps eval_nat_numeral)
    finally show ?thesis .
  qed
  show "\<bar>rnd (xc - wh) - (?X - ?W)\<bar> \<le> (?p ^ 3 - 1) * \<bar>?X\<bar> + (?p ^ 5 - 1) * \<bar>?W\<bar>"
    by (rule fin) (simp, linarith)
  show "\<bar>rnd (xc + wh) - (?X + ?W)\<bar> \<le> (?p ^ 3 - 1) * \<bar>?X\<bar> + (?p ^ 5 - 1) * \<bar>?W\<bar>"
    by (rule fin) (simp, linarith)
qed

text \<open>
  Claim C9, as the code has it. For a box \<open>b\<close> of four coordinates and any scale
  \<open>s\<close>, \<open>expand_box\<close> returns a new box of four coordinates; the function reads \<open>b\<close>
  and writes only the array it allocates. When every operation rounds with a relative
  error of at most \<open>u\<close> (\<open>2 ^ -53\<close> for \<^verbatim>\<open>float64\<close>), each coordinate of the result
  is the centre of \<open>b\<close> minus or plus \<open>s\<close> times the half extent of \<open>b\<close> up to
  \<open>((1 + u) ^ 3 - 1)\<close> times the centre plus \<open>((1 + u) ^ 5 - 1)\<close> times the scaled
  half extent, in absolute values. Only in exact arithmetic, \<open>u = 0\<close>, the centre is
  that of \<open>b\<close>, the width and height are exactly \<open>s\<close> times those of \<open>b\<close>, and the
  scale 1 returns \<open>b\<close>.
\<close>

theorem expand_box_center_scale:
  assumes len: "length b = 4" and u: "0 \<le> u"
    and rb: "\<forall>x. \<bar>rnd_box x - x\<bar> \<le> u * \<bar>x\<bar>" and r: "\<forall>x. \<bar>rnd x - x\<bar> \<le> u * \<bar>x\<bar>"
  shows "\<exists>e. expand_box rnd_box rnd b s = Inr e \<and> length e = 4
     \<and> \<bar>e ! 0 - ((b ! 2 + b ! 0) / 2 - s * (b ! 2 - b ! 0) / 2)\<bar>
         \<le> ((1 + u) ^ 3 - 1) * \<bar>(b ! 2 + b ! 0) / 2\<bar> + ((1 + u) ^ 5 - 1) * \<bar>s * (b ! 2 - b ! 0) / 2\<bar>
     \<and> \<bar>e ! 2 - ((b ! 2 + b ! 0) / 2 + s * (b ! 2 - b ! 0) / 2)\<bar>
         \<le> ((1 + u) ^ 3 - 1) * \<bar>(b ! 2 + b ! 0) / 2\<bar> + ((1 + u) ^ 5 - 1) * \<bar>s * (b ! 2 - b ! 0) / 2\<bar>
     \<and> \<bar>e ! 1 - ((b ! 3 + b ! 1) / 2 - s * (b ! 3 - b ! 1) / 2)\<bar>
         \<le> ((1 + u) ^ 3 - 1) * \<bar>(b ! 3 + b ! 1) / 2\<bar> + ((1 + u) ^ 5 - 1) * \<bar>s * (b ! 3 - b ! 1) / 2\<bar>
     \<and> \<bar>e ! 3 - ((b ! 3 + b ! 1) / 2 + s * (b ! 3 - b ! 1) / 2)\<bar>
         \<le> ((1 + u) ^ 3 - 1) * \<bar>(b ! 3 + b ! 1) / 2\<bar> + ((1 + u) ^ 5 - 1) * \<bar>s * (b ! 3 - b ! 1) / 2\<bar>
     \<and> (u = 0 \<longrightarrow>
           (e ! 0 + e ! 2) / 2 = (b ! 0 + b ! 2) / 2
         \<and> (e ! 1 + e ! 3) / 2 = (b ! 1 + b ! 3) / 2
         \<and> e ! 2 - e ! 0 = s * (b ! 2 - b ! 0)
         \<and> e ! 3 - e ! 1 = s * (b ! 3 - b ! 1)
         \<and> expand_box rnd_box rnd b 1 = Inr b)"
proof -
  obtain a0 a1 a2 a3 where b: "b = [a0, a1, a2, a3]"
    using len by (auto simp: length_Suc_conv numeral_eq_Suc)
  define xc where "xc = rnd (rnd_box (a2 + a0) * (1 / 2))"
  define wh where "wh = rnd (rnd (rnd_box (a2 - a0) * (1 / 2)) * rnd s)"
  define yc where "yc = rnd (rnd_box (a3 + a1) * (1 / 2))"
  define hh where "hh = rnd (rnd (rnd_box (a3 - a1) * (1 / 2)) * rnd s)"
  have run: "expand_box rnd_box rnd b s = Inr [rnd (xc - wh), rnd (yc - hh), rnd (xc + wh), rnd (yc + hh)]"
    by (simp add: b expand_box_def Let_def numeral_eq_Suc xc_def wh_def yc_def hh_def)
  note X = expand_coordinate[OF rb r u, of a2 a0 s, folded xc_def wh_def]
  note Y = expand_coordinate[OF rb r u, of a3 a1 s, folded yc_def hh_def]
  have exact: "(rnd (xc - wh) + rnd (xc + wh)) / 2 = (a0 + a2) / 2
         \<and> (rnd (yc - hh) + rnd (yc + hh)) / 2 = (a1 + a3) / 2
         \<and> rnd (xc + wh) - rnd (xc - wh) = s * (a2 - a0)
         \<and> rnd (yc + hh) - rnd (yc - hh) = s * (a3 - a1)
         \<and> expand_box rnd_box rnd b 1 = Inr b" if "u = 0"
  proof -
    have "rnd x = x" "rnd_box x = x" for x using r rb that by simp_all
    then show ?thesis
      by (simp add: b expand_box_def Let_def numeral_eq_Suc xc_def wh_def yc_def hh_def field_simps)
  qed
  show ?thesis
    unfolding run using X Y exact by (simp add: b)
qed

theorem expand_box_center_scale_witness:
  "length [0, 0, 2, 4 :: real] = 4 \<and> (0 :: real) \<le> 1 / 2 ^ 53
   \<and> (\<forall>x. \<bar>binary64 x - x\<bar> \<le> (1 / 2 ^ 53) * \<bar>x\<bar>)
   \<and> expand_box binary64 binary64 [0, 0, 2, 4] 2 = Inr [- 1, - 2, 3, 6]
   \<and> (\<exists>e. expand_box binary64 binary64 [0, 0, 2, 4] 2 = Inr e
        \<and> \<bar>e ! 0 - (- 1)\<bar> \<le> ((1 + 1 / 2 ^ 53) ^ 3 - 1) * 1 + ((1 + 1 / 2 ^ 53) ^ 5 - 1) * 2)"
proof -
  have h: "\<forall>x. \<bar>binary64 x - x\<bar> \<le> (1 / 2 ^ 53) * \<bar>x\<bar>" using binary64_error by blast
  have z: "binary64 0 = 0" by (simp add: binary64_def)
  have run: "expand_box binary64 binary64 [0, 0, 2, 4] 2 = Inr [- 1, - 2, 3, 6]"
    by (simp add: expand_box_def Let_def numeral_eq_Suc z)
  from expand_box_center_scale[of "[0, 0, 2, 4]" "1 / 2 ^ 53" binary64 binary64 2, OF _ _ h h]
  obtain e where "expand_box binary64 binary64 [0, 0, 2, 4] 2 = Inr e"
    "\<bar>e ! 0 - ((([0, 0, 2, 4 :: real] ! 2 + [0, 0, 2, 4] ! 0) / 2 - 2 * ([0, 0, 2, 4] ! 2 - [0, 0, 2, 4] ! 0) / 2))\<bar>
       \<le> ((1 + 1 / 2 ^ 53) ^ 3 - 1) * \<bar>([0, 0, 2, 4 :: real] ! 2 + [0, 0, 2, 4] ! 0) / 2\<bar>
         + ((1 + 1 / 2 ^ 53) ^ 5 - 1) * \<bar>2 * ([0, 0, 2, 4 :: real] ! 2 - [0, 0, 2, 4] ! 0) / 2\<bar>"
    by auto
  then have "\<exists>e. expand_box binary64 binary64 [0, 0, 2, 4] 2 = Inr e
        \<and> \<bar>e ! 0 - (- 1)\<bar> \<le> ((1 + 1 / 2 ^ 53) ^ 3 - 1) * 1 + ((1 + 1 / 2 ^ 53) ^ 5 - 1) * 2"
    by (intro exI[of _ e]) simp
  then show ?thesis using h run by simp
qed

text \<open>
  The claim as worded fails in \<^verbatim>\<open>float64\<close>: for the box \<open>(0.1, 0.2, 0.4, 0.7)\<close> and
  the scale 1 the half width \<open>(0.4 - 0.1) * .5\<close> is rounded up and the result is
  \<open>(0.09999999999999998, 0.19999999999999998, 0.4, 0.7)\<close>, which is not the box, has
  not its centre and has not its width.
\<close>

theorem expand_box_center_scale_counterexample:
  "binary64 (1 / 10) = 3602879701896397 / 2 ^ 55 \<and> binary64 (2 / 10) = 3602879701896397 / 2 ^ 54
   \<and> binary64 (4 / 10) = 3602879701896397 / 2 ^ 53 \<and> binary64 (7 / 10) = 3152519739159347 / 2 ^ 52
   \<and> expand_box binary64 binary64
         [3602879701896397 / 2 ^ 55, 3602879701896397 / 2 ^ 54,
          3602879701896397 / 2 ^ 53, 3152519739159347 / 2 ^ 52] 1
       = Inr [900719925474099 / 2 ^ 53, 7205759403792793 / 2 ^ 55,
              3602879701896397 / 2 ^ 53, 3152519739159347 / 2 ^ 52]
   \<and> (900719925474099 / 2 ^ 53 :: real) \<noteq> 3602879701896397 / 2 ^ 55"
proof -
  define b0 :: real where "b0 = 3602879701896397 / 2 ^ 55"
  define b1 :: real where "b1 = 3602879701896397 / 2 ^ 54"
  define b2 :: real where "b2 = 3602879701896397 / 2 ^ 53"
  define b3 :: real where "b3 = 3152519739159347 / 2 ^ 52"
  define dw :: real where "dw = 1351079888211149 / 2 ^ 52"
  define w0 :: real where "w0 = 1351079888211149 / 2 ^ 53"
  define dh :: real where "dh = 9007199254740991 / 2 ^ 54"
  define h0 :: real where "h0 = 9007199254740991 / 2 ^ 55"
  define sx :: real where "sx = 1 / 2 ^ 1"
  define xc :: real where "xc = 1 / 2 ^ 2"
  define sy :: real where "sy = 2026619832316723 / 2 ^ 51"
  define yc :: real where "yc = 2026619832316723 / 2 ^ 52"
  define w1 :: real where "w1 = 1351079888211149 / 2 ^ 53"
  define h1 :: real where "h1 = 9007199254740991 / 2 ^ 55"
  define e0 :: real where "e0 = 900719925474099 / 2 ^ 53"
  define e2 :: real where "e2 = 3602879701896397 / 2 ^ 53"
  define e1 :: real where "e1 = 7205759403792793 / 2 ^ 55"
  define e3 :: real where "e3 = 3152519739159347 / 2 ^ 52"
  have in0: "binary64 (1 / 10) = b0" unfolding b0_def using binary64_eval[of "-4" "1 / 10"]
    by (simp add: powr_minus powr_diff round_even_def field_simps)
  have in1: "binary64 (2 / 10) = b1" unfolding b1_def using binary64_eval[of "-3" "2 / 10"]
    by (simp add: powr_minus powr_diff round_even_def field_simps)
  have in2: "binary64 (4 / 10) = b2" unfolding b2_def using binary64_eval[of "-2" "4 / 10"]
    by (simp add: powr_minus powr_diff round_even_def field_simps)
  have in3: "binary64 (7 / 10) = b3" unfolding b3_def using binary64_eval[of "-1" "7 / 10"]
    by (simp add: powr_minus powr_diff round_even_def field_simps)
  have one: "binary64 1 = 1" using binary64_eval[of 0 1]
    by (simp add: powr_minus powr_diff round_even_def field_simps)
  have r_dw: "binary64 (b2 - b0) = dw"
    unfolding b0_def b2_def dw_def using binary64_eval[of "-2" "(3602879701896397 / 2 ^ 53) - (3602879701896397 / 2 ^ 55)"]
    by (simp add: powr_minus powr_diff round_even_def field_simps)
  have r_w0: "binary64 (dw / 2) = w0"
    unfolding dw_def w0_def using binary64_eval[of "-3" "(1351079888211149 / 2 ^ 52) / 2"]
    by (simp add: powr_minus powr_diff round_even_def field_simps)
  have r_dh: "binary64 (b3 - b1) = dh"
    unfolding b1_def b3_def dh_def using binary64_eval[of "-2" "(3152519739159347 / 2 ^ 52) - (3602879701896397 / 2 ^ 54)"]
    by (simp add: powr_minus powr_diff round_even_def field_simps)
  have r_h0: "binary64 (dh / 2) = h0"
    unfolding dh_def h0_def using binary64_eval[of "-3" "(9007199254740991 / 2 ^ 54) / 2"]
    by (simp add: powr_minus powr_diff round_even_def field_simps)
  have r_sx: "binary64 (b2 + b0) = sx"
    unfolding b0_def b2_def sx_def using binary64_eval[of "-1" "(3602879701896397 / 2 ^ 53) + (3602879701896397 / 2 ^ 55)"]
    by (simp add: powr_minus powr_diff round_even_def field_simps)
  have r_xc: "binary64 (sx / 2) = xc"
    unfolding sx_def xc_def using binary64_eval[of "-2" "(1 / 2 ^ 1) / 2"]
    by (simp add: powr_minus powr_diff round_even_def field_simps)
  have r_sy: "binary64 (b3 + b1) = sy"
    unfolding b1_def b3_def sy_def using binary64_eval[of "-1" "(3152519739159347 / 2 ^ 52) + (3602879701896397 / 2 ^ 54)"]
    by (simp add: powr_minus powr_diff round_even_def field_simps)
  have r_yc: "binary64 (sy / 2) = yc"
    unfolding sy_def yc_def using binary64_eval[of "-2" "(2026619832316723 / 2 ^ 51) / 2"]
    by (simp add: powr_minus powr_diff round_even_def field_simps)
  have r_w1: "binary64 (w0) = w1"
    unfolding w0_def w1_def using binary64_eval[of "-3" "(1351079888211149 / 2 ^ 53)"]
    by (simp add: powr_minus powr_diff round_even_def field_simps)
  have r_h1: "binary64 (h0) = h1"
    unfolding h0_def h1_def using binary64_eval[of "-3" "(9007199254740991 / 2 ^ 55)"]
    by (simp add: powr_minus powr_diff round_even_def field_simps)
  have r_e0: "binary64 (xc - w1) = e0"
    unfolding w1_def xc_def e0_def using binary64_eval[of "-4" "(1 / 2 ^ 2) - (1351079888211149 / 2 ^ 53)"]
    by (simp add: powr_minus powr_diff round_even_def field_simps)
  have r_e2: "binary64 (xc + w1) = e2"
    unfolding w1_def xc_def e2_def using binary64_eval[of "-2" "(1 / 2 ^ 2) + (1351079888211149 / 2 ^ 53)"]
    by (simp add: powr_minus powr_diff round_even_def field_simps)
  have r_e1: "binary64 (yc - h1) = e1"
    unfolding h1_def yc_def e1_def using binary64_eval[of "-3" "(2026619832316723 / 2 ^ 52) - (9007199254740991 / 2 ^ 55)"]
    by (simp add: powr_minus powr_diff round_even_def field_simps)
  have r_e3: "binary64 (yc + h1) = e3"
    unfolding h1_def yc_def e3_def using binary64_eval[of "-1" "(2026619832316723 / 2 ^ 52) + (9007199254740991 / 2 ^ 55)"]
    by (simp add: powr_minus powr_diff round_even_def field_simps)
  have run: "expand_box binary64 binary64 [b0, b1, b2, b3] 1 = Inr [e0, e1, e2, e3]"
    by (simp add: expand_box_def Let_def numeral_eq_Suc one r_dw r_w0 r_dh r_h0 r_sx r_xc r_sy r_yc r_w1 r_h1 r_e0 r_e2 r_e1 r_e3)
  have ne: "e0 \<noteq> b0" by (simp add: e0_def b0_def)
  show ?thesis
    using in0 in1 in2 in3 run ne unfolding b0_def b1_def b2_def b3_def e0_def e1_def e2_def e3_def
    by blast
qed

text \<open>
  Claim C8. Whatever the coordinates, the shift and the padding, every entry of both
  arrays returned by \<open>sanitize_coordinates\<close> lies between 0 and the image size. The
  order of the two bounds is not part of the guarantee: the coordinates 1 and 0 on an
  image of size 10 come back as 10 and 0.
\<close>

theorem sanitize_coordinates_range:
  "list_all (\<lambda>v. 0 \<le> v \<and> v \<le> real img_size)
     (fst (sanitize_coordinates x1_raw x2_raw img_size shift padding))
   \<and> list_all (\<lambda>v. 0 \<le> v \<and> v \<le> real img_size)
     (snd (sanitize_coordinates x1_raw x2_raw img_size shift padding))
   \<and> length (fst (sanitize_coordinates x1_raw x2_raw img_size shift padding)) = length x1_raw
   \<and> length (snd (sanitize_coordinates x1_raw x2_raw img_size shift padding)) = length x2_raw
   \<and> sanitize_coordinates [1] [0] 10 0 0 = ([10], [0])"
  by (simp add: sanitize_coordinates_def Let_def np_clip_def list_all_iff)

section \<open>Properties of non-maximum suppression\<close>

lemma np_broadcast2_same [simp]:
  "length xs = length ys \<Longrightarrow> np_broadcast2 f xs ys = Inr (map2 f xs ys)"
  by (simp add: np_broadcast2_def)

lemma overlap_sym: "overlap x1 y1 x2 y2 areas b i j = overlap x1 y1 x2 y2 areas b j i"
  by (simp add: overlap_def Let_def max.commute min.commute add.commute)

lemma nms_loop_result:
  "nms_loop x1 y1 x2 y2 areas b thresh order keep = Inr res \<Longrightarrow>
   \<exists>ks. res = keep @ ks
      \<and> sorted_wrt (\<lambda>a c. overlap x1 y1 x2 y2 areas b a c \<le> thresh) ks
      \<and> set ks \<subseteq> set order \<and> (distinct order \<longrightarrow> distinct ks)"
proof (induction x1 y1 x2 y2 areas b thresh order keep arbitrary: res rule: nms_loop.induct)
  case (1 x1 y1 x2 y2 areas b thresh keep)
  then show ?case by simp
next
  case (2 x1 y1 x2 y2 areas b thresh i rest keep)
  let ?Q = "\<lambda>j. overlap x1 y1 x2 y2 areas b i j \<le> thresh"
  from "2.prems" have ok: "list_all (in_bounds x1 y1 x2 y2 areas) (i # rest)"
    and run: "nms_loop x1 y1 x2 y2 areas b thresh (filter ?Q rest) (keep @ [i]) = Inr res"
    by (auto split: if_splits)
  from "2.IH"[OF _ run] ok obtain ks where ks: "res = (keep @ [i]) @ ks"
    "sorted_wrt (\<lambda>a c. overlap x1 y1 x2 y2 areas b a c \<le> thresh) ks"
    "set ks \<subseteq> set (filter ?Q rest)" "distinct (filter ?Q rest) \<longrightarrow> distinct ks"
    by auto
  show ?case
  proof (intro exI[of _ "i # ks"] conjI impI)
    show "res = keep @ i # ks" using ks(1) by simp
    show "sorted_wrt (\<lambda>a c. overlap x1 y1 x2 y2 areas b a c \<le> thresh) (i # ks)"
      using ks(2,3) by auto
    show "set (i # ks) \<subseteq> set (i # rest)" using ks(3) by auto
    assume "distinct (i # rest)"
    then show "distinct (i # ks)" using ks(3,4) by auto
  qed
qed

lemma nms_loop_total:
  "list_all (in_bounds x1 y1 x2 y2 areas) order \<Longrightarrow>
   \<exists>res. nms_loop x1 y1 x2 y2 areas b thresh order keep = Inr res"
proof (induction x1 y1 x2 y2 areas b thresh order keep rule: nms_loop.induct)
  case (1 x1 y1 x2 y2 areas b thresh keep)
  then show ?case by simp
next
  case (2 x1 y1 x2 y2 areas b thresh i rest keep)
  then show ?case by (auto simp: list_all_iff)
qed

lemma nms_loop_keep_all:
  "list_all (in_bounds x1 y1 x2 y2 areas) order \<Longrightarrow> distinct order \<Longrightarrow>
   (\<forall>a\<in>set order. \<forall>c\<in>set order. a \<noteq> c \<longrightarrow> overlap x1 y1 x2 y2 areas b a c \<le> thresh) \<Longrightarrow>
   nms_loop x1 y1 x2 y2 areas b thresh order keep = Inr (keep @ order)"
proof (induction x1 y1 x2 y2 areas b thresh order keep rule: nms_loop.induct)
  case (1 x1 y1 x2 y2 areas b thresh keep)
  then show ?case by simp
next
  case (2 x1 y1 x2 y2 areas b thresh i rest keep)
  have f: "filter (\<lambda>j. overlap x1 y1 x2 y2 areas b i j \<le> thresh) rest = rest"
    using "2.prems"(2,3) by (auto simp: filter_id_conv)
  show ?case using "2.IH" "2.prems" by (simp add: f)
qed

lemma sorted_wrt_pair:
  "sorted_wrt P ks \<Longrightarrow> i \<in> set ks \<Longrightarrow> j \<in> set ks \<Longrightarrow> i \<noteq> j \<Longrightarrow> P i j \<or> P j i"
  by (induction ks) auto

lemma takeWhile_filter_notin:
  "i \<notin> set (takeWhile (\<lambda>k. k \<noteq> j) xs) \<Longrightarrow> P i = P j \<Longrightarrow>
   i \<notin> set (takeWhile (\<lambda>k. k \<noteq> j) (filter P xs))"
  by (induction xs) (auto split: if_splits dest: set_takeWhileD)

lemma takeWhile_take_notin:
  "i \<notin> set (takeWhile Q xs) \<Longrightarrow> i \<notin> set (takeWhile Q (take m xs))"
  by (induction xs arbitrary: m) (auto simp: take_Cons split: nat.splits if_splits)

lemma nms_loop_dup:
  assumes "\<And>k. overlap x1 y1 x2 y2 areas b k i = overlap x1 y1 x2 y2 areas b k j"
    and "\<not> overlap x1 y1 x2 y2 areas b j i \<le> thresh" and "i \<noteq> j"
  shows "i \<notin> set (takeWhile (\<lambda>k. k \<noteq> j) order) \<Longrightarrow> i \<notin> set keep \<Longrightarrow>
    nms_loop x1 y1 x2 y2 areas b thresh order keep = Inr res \<Longrightarrow> i \<notin> set res"
  using assms
proof (induction x1 y1 x2 y2 areas b thresh order keep arbitrary: res rule: nms_loop.induct)
  case (1 x1 y1 x2 y2 areas b thresh keep)
  then show ?case by simp
next
  case (2 x1 y1 x2 y2 areas b thresh k rest keep)
  let ?Q = "\<lambda>c. overlap x1 y1 x2 y2 areas b k c \<le> thresh"
  from "2.prems"(3) have ok: "list_all (in_bounds x1 y1 x2 y2 areas) (k # rest)"
    and run: "nms_loop x1 y1 x2 y2 areas b thresh (filter ?Q rest) (keep @ [k]) = Inr res"
    by (auto split: if_splits)
  have ki: "k \<noteq> i" using "2.prems"(1) "2.prems"(6) by (auto split: if_splits)
  have "i \<notin> set (takeWhile (\<lambda>c. c \<noteq> j) (filter ?Q rest))"
  proof (cases "k = j")
    case True
    then have "\<not> ?Q i" using "2.prems"(5) by simp
    then have "i \<notin> set (filter ?Q rest)" by simp
    then show ?thesis by (auto dest: set_takeWhileD)
  next
    case False
    then have "i \<notin> set (takeWhile (\<lambda>c. c \<noteq> j) rest)" using "2.prems"(1) by simp
    then show ?thesis using "2.prems"(4) by (intro takeWhile_filter_notin) auto
  qed
  moreover have "i \<notin> set (keep @ [k])" using ki "2.prems"(2) by simp
  ultimately show ?case
    using "2.IH"[OF _ _ _ run] ok "2.prems"(4,5,6) by blast
qed

lemma argsort_set [simp]: "set (argsort tie s) = {0..<length s}"
  by (simp add: argsort_def)

lemma argsort_distinct [simp]: "distinct (argsort tie s)"
  by (simp add: argsort_def)

lemma argsort_length [simp]: "length (argsort tie s) = length s"
  by (simp add: argsort_def)

text \<open>
  A stable sort refines the order the list had: after sorting by \<open>f\<close>, elements come
  by ascending \<open>f\<close>, and elements of equal \<open>f\<close> in their former order.
\<close>

lemma insort_key_refines:
  assumes "sorted_wrt (\<lambda>a c. f a < f c \<or> (f a = f c \<and> S a c)) ys" and "\<forall>y\<in>set ys. S x y"
  shows "sorted_wrt (\<lambda>a c. f a < f c \<or> (f a = f c \<and> S a c)) (insort_key f x ys)"
  using assms
proof (induction ys)
  case Nil
  then show ?case by simp
next
  case (Cons y ys)
  show ?case
  proof (cases "f x \<le> f y")
    case True
    have "f x < f z \<or> (f x = f z \<and> S x z)" if "z \<in> set (y # ys)" for z
    proof -
      have "f y \<le> f z" using Cons.prems(1) that by auto
      then show ?thesis using True Cons.prems(2) that by force
    qed
    then show ?thesis using True Cons.prems(1) by simp
  next
    case False
    then show ?thesis using Cons by (auto simp: set_insort_key)
  qed
qed

lemma sort_key_refines:
  "sorted_wrt S xs \<Longrightarrow> sorted_wrt (\<lambda>a c. f a < f c \<or> (f a = f c \<and> S a c)) (sort_key f xs)"
proof (induction xs)
  case Nil
  then show ?case by simp
next
  case (Cons x xs)
  then show ?case by (simp add: insort_key_refines)
qed

lemma argsort_sorted:
  "sorted_wrt (\<lambda>a c. s ! a < s ! c
      \<or> (s ! a = s ! c \<and> (if length s \<le> 17 then a < c
            else tie s a < tie s c \<or> (tie s a = tie s c \<and> a < c))))
     (argsort tie s)"
proof (cases "length s \<le> 17")
  case True
  have "sorted_wrt (<) [0..<length s]" by simp
  from sort_key_refines[OF this, of "\<lambda>i. s ! i"] show ?thesis
    using True by (simp add: argsort_def)
next
  case False
  have "sorted_wrt (<) [0..<length s]" by simp
  from sort_key_refines[OF sort_key_refines[OF this, of "tie s"], of "\<lambda>i. s ! i"]
  show ?thesis using False by (simp add: argsort_def)
qed

text \<open>
  The box \<open>j\<close> is visited before the box \<open>i\<close>, that is, \<open>i\<close> does not stand before
  \<open>j\<close> in \<^verbatim>\<open>order\<close>, when its score is higher, or when the scores are equal and the
  sort has put \<open>i\<close> first.
\<close>

lemma argsort_tie:
  assumes "i < length s" "j < length s"
    and "s ! i < s ! j
      \<or> (s ! i = s ! j \<and> (if length s \<le> 17 then i < j
            else tie s i < tie s j \<or> (tie s i = tie s j \<and> i < j)))"
  shows "i \<notin> set (takeWhile (\<lambda>k. k \<noteq> j) (rev (argsort tie s)))"
proof
  let ?l = "rev (argsort tie s)"
  let ?R = "\<lambda>a c. s ! a < s ! c
      \<or> (s ! a = s ! c \<and> (if length s \<le> 17 then a < c
            else tie s a < tie s c \<or> (tie s a = tie s c \<and> a < c)))"
  assume i: "i \<in> set (takeWhile (\<lambda>k. k \<noteq> j) ?l)"
  have "j \<in> set ?l" using assms by simp
  then have "dropWhile (\<lambda>k. k \<noteq> j) ?l \<noteq> []" by auto
  then obtain B where B: "dropWhile (\<lambda>k. k \<noteq> j) ?l = j # B"
    using hd_dropWhile[of "\<lambda>k. k \<noteq> j" ?l] by (cases "dropWhile (\<lambda>k. k \<noteq> j) ?l") auto
  define A where "A = takeWhile (\<lambda>k. k \<noteq> j) ?l"
  have "?l = A @ j # B" using B takeWhile_dropWhile_id[of "\<lambda>k. k \<noteq> j" ?l] by (simp add: A_def)
  then have l: "argsort tie s = rev B @ j # rev A"
    by (metis rev_append rev.simps(2) rev_rev_ident append.assoc append_Cons append_Nil)
  have "sorted_wrt ?R (rev B @ j # rev A)"
    using argsort_sorted[of s tie] by (simp only: l)
  moreover have "i \<in> set (rev A)" using i by (simp add: A_def)
  ultimately have "?R j i" by (simp add: sorted_wrt_append)
  then show False using assms(3) by (auto split: if_splits)
qed

lemma box_areas_same:
  assumes "length y1 = length x1" "length x2 = length x1" "length y2 = length x1"
  shows "box_areas x1 y1 x2 y2 b =
         Inr (map (\<lambda>k. (x2 ! k - x1 ! k + b) * (y2 ! k - y1 ! k + b)) [0..<length x1])"
  using assms by (auto simp: box_areas_def intro!: nth_equalityI)

lemma py_take_subset: "set (py_take k xs) \<subseteq> set xs"
  by (auto simp: py_take_def dest: in_set_takeD)

lemma py_take_distinct: "distinct xs \<Longrightarrow> distinct (py_take k xs)"
  by (simp add: py_take_def)

lemma nms_order_subset: "set (nms_order tie scores ktk) \<subseteq> {0..<length scores}"
  using py_take_subset[of _ "rev (argsort tie scores)"]
  by (auto simp: nms_order_def Let_def split: option.splits)

lemma nms_order_distinct: "distinct (nms_order tie scores ktk)"
  by (auto simp: nms_order_def Let_def py_take_distinct split: option.splits)

lemma nms_unfold:
  assumes "length y1 = length x1" "length x2 = length x1" "length y2 = length x1"
  shows "nms tie x1 y1 x2 y2 scores thresh ib ktk =
         nms_loop x1 y1 x2 y2
           (map (\<lambda>k. (x2 ! k - x1 ! k + (if ib then 1 else 0)) * (y2 ! k - y1 ! k + (if ib then 1 else 0))) [0..<length x1])
           (if ib then 1 else 0) thresh (nms_order tie scores ktk) []"
  by (simp add: nms_def box_areas_same[OF assms] Let_def)

lemma nms_returns:
  assumes len: "length y1 = length x1" "length x2 = length x1" "length y2 = length x1"
               "length scores = length x1"
  shows "\<exists>keep. nms tie x1 y1 x2 y2 scores thresh ib ktk = Inr keep \<and> set keep \<subseteq> {0..<length x1}
          \<and> distinct keep"
proof -
  let ?b = "if ib then 1 else 0 :: real"
  let ?areas = "map (\<lambda>k. (x2 ! k - x1 ! k + ?b) * (y2 ! k - y1 ! k + ?b)) [0..<length x1]"
  have "list_all (in_bounds x1 y1 x2 y2 ?areas) (nms_order tie scores ktk)"
    using nms_order_subset[of tie scores ktk] len by (auto simp: list_all_iff in_bounds_def)
  then obtain res where res: "nms_loop x1 y1 x2 y2 ?areas ?b thresh (nms_order tie scores ktk) [] = Inr res"
    using nms_loop_total by blast
  from nms_loop_result[OF res] nms_order_subset[of tie scores ktk] nms_order_distinct[of tie scores ktk]
  have "set res \<subseteq> {0..<length x1}" "distinct res" using len by auto
  then show ?thesis using res by (simp add: nms_unfold[OF len(1-3)])
qed

lemma overlap_gather:
  assumes len: "length y1 = length x1" "length x2 = length x1" "length y2 = length x1"
    and ks: "set ks \<subseteq> {0..<length x1}" and pq: "p < length ks" "q < length ks"
  shows "overlap (map ((!) x1) ks) (map ((!) y1) ks) (map ((!) x2) ks) (map ((!) y2) ks)
           (map (\<lambda>k. (map ((!) x2) ks ! k - map ((!) x1) ks ! k + b)
                     * (map ((!) y2) ks ! k - map ((!) y1) ks ! k + b)) [0..<length (map ((!) x1) ks)])
           b p q
       = overlap x1 y1 x2 y2
           (map (\<lambda>k. (x2 ! k - x1 ! k + b) * (y2 ! k - y1 ! k + b)) [0..<length x1]) b (ks ! p) (ks ! q)"
proof -
  have "ks ! p < length x1" "ks ! q < length x1" using ks pq by (auto simp: subset_iff)
  then show ?thesis using pq by (simp add: overlap_def)
qed


lemma nms_order_tie:
  assumes "i < length s" "j < length s"
    and "s ! i < s ! j
      \<or> (s ! i = s ! j \<and> (if length s \<le> 17 then i < j
            else tie s i < tie s j \<or> (tie s i = tie s j \<and> i < j)))"
  shows "i \<notin> set (takeWhile (\<lambda>k. k \<noteq> j) (nms_order tie s ktk))"
  using argsort_tie[where tie = tie, OF assms]
    takeWhile_take_notin[of i "\<lambda>k. k \<noteq> j" "rev (argsort tie s)"]
  by (auto simp: nms_order_def Let_def py_take_def split: option.splits)

text \<open>
  Claim C3, as the code has it. For the unit boxes \<open>(0,0,1,1)\<close> and \<open>(1,1,2,2)\<close>
  the inclusive convention gives each box the area 4 and the shared corner the area 1,
  so the overlap is \<open>1/7\<close>: both boxes are kept exactly when \<open>1/7 \<le> thresh\<close>, and
  below that only the box with the higher score is. With exclusive boundaries the
  overlap is 0 and both are kept for every \<open>thresh \<ge> 0\<close>.
\<close>

theorem nms_corner_boxes:
  "nms tie [0, 1] [0, 1] [1, 2] [1, 2] [s0, s1] thresh True None =
     (if 1 / 7 \<le> thresh then Inr (if s0 \<le> s1 then [1, 0] else [0, 1])
      else Inr (if s0 \<le> s1 then [1] else [0]))
   \<and> overlap [0, 1] [0, 1] [1, 2] [1, 2] [4, 4] 1 0 1 = 1 / 7
   \<and> box_areas [0, 1] [0, 1] [1, 2] [1, 2] 1 = Inr [4, 4]
   \<and> nms tie [0, 1] [0, 1] [1, 2] [1, 2] [s0, s1] thresh False None =
     (if 0 \<le> thresh then Inr (if s0 \<le> s1 then [1, 0] else [0, 1])
      else Inr (if s0 \<le> s1 then [1] else [0]))"
  by (simp add: nms_def box_areas_def np_broadcast2_def nms_order_def argsort_def sort_key_def
        overlap_def in_bounds_def upt_rec)

text \<open>
  The claim as worded fails: with \<open>include_boundaries = True\<close> and the threshold
  \<open>1/10 < 1\<close> the second box is suppressed.
\<close>

theorem nms_corner_boxes_counterexample:
  "(1 / 10 :: real) < 1
   \<and> (\<forall>tie. nms tie [0, 1] [0, 1] [1, 2] [1, 2] [9 / 10, 8 / 10] (1 / 10) True None = Inr [0])"
  by (simp add: nms_def box_areas_def np_broadcast2_def nms_order_def argsort_def sort_key_def
        overlap_def in_bounds_def upt_rec)

text \<open>
  Claim C6, as the code has it. Two identical boxes whose width and height are positive
  under the boundary convention have overlap exactly 1, and identical boxes of which
  one extent is not positive have overlap 0 (the quotient has a zero numerator, or the
  guarded zero denominator). With positive extents and \<open>thresh < 1\<close> the call returns
  and at most one of the two is kept: never the one with the lower score, and, when the
  scores tie, never the one the sort has put first. That one is the lower-indexed box
  when there are at most 17 boxes; among more boxes it is the one of lower rank in the
  order numpy's sort leaves equal scores in (the lower-indexed one at equal rank).
\<close>

theorem nms_identical_boxes:
  assumes len: "length y1 = length x1" "length x2 = length x1" "length y2 = length x1"
               "length scores = length x1"
    and ij: "i < j" "j < length x1"
    and same: "x1 ! i = x1 ! j" "y1 ! i = y1 ! j" "x2 ! i = x2 ! j" "y2 ! i = y2 ! j"
    and b: "b = (if include_boundaries then 1 else 0)"
  shows "\<exists>areas keep.
           box_areas x1 y1 x2 y2 b = Inr areas
         \<and> overlap x1 y1 x2 y2 areas b i j
             = (if 0 < x2 ! i - x1 ! i + b \<and> 0 < y2 ! i - y1 ! i + b then 1 else 0)
         \<and> nms tie x1 y1 x2 y2 scores thresh include_boundaries keep_top_k = Inr keep
         \<and> (0 < x2 ! i - x1 ! i + b \<and> 0 < y2 ! i - y1 ! i + b \<and> thresh < 1 \<longrightarrow>
              \<not> (i \<in> set keep \<and> j \<in> set keep)
            \<and> (scores ! i < scores ! j \<longrightarrow> i \<notin> set keep)
            \<and> (scores ! j < scores ! i \<longrightarrow> j \<notin> set keep)
            \<and> (scores ! i = scores ! j \<and> (length scores \<le> 17 \<or> tie scores i \<le> tie scores j)
                 \<longrightarrow> i \<notin> set keep)
            \<and> (scores ! i = scores ! j \<and> 17 < length scores \<and> tie scores j < tie scores i
                 \<longrightarrow> j \<notin> set keep))"
proof -
  let ?areas = "map (\<lambda>k. (x2 ! k - x1 ! k + b) * (y2 ! k - y1 ! k + b)) [0..<length x1]"
  let ?ov = "overlap x1 y1 x2 y2 ?areas b"
  let ?order = "nms_order tie scores keep_top_k"
  have areas: "box_areas x1 y1 x2 y2 b = Inr ?areas" by (rule box_areas_same[OF len(1-3)])
  have ai: "?areas ! i = (x2 ! i - x1 ! i + b) * (y2 ! i - y1 ! i + b)"
    and aj: "?areas ! j = (x2 ! i - x1 ! i + b) * (y2 ! i - y1 ! i + b)"
    using ij same by simp_all
  have ov: "?ov i j = (if 0 < x2 ! i - x1 ! i + b \<and> 0 < y2 ! i - y1 ! i + b then 1 else 0)"
  proof (cases "0 < x2 ! i - x1 ! i + b \<and> 0 < y2 ! i - y1 ! i + b")
    case True
    then have "0 < (x2 ! i - x1 ! i + b) * (y2 ! i - y1 ! i + b)" by simp
    then show ?thesis
      unfolding overlap_def Let_def ai aj using True same by (simp add: max_def)
  next
    case False
    then have "max 0 (x2 ! i - x1 ! i + b) * max 0 (y2 ! i - y1 ! i + b) = 0"
      by (auto simp: max_def)
    then show ?thesis
      unfolding overlap_def Let_def ai aj using False same by simp
  qed
  have ovk: "?ov k i = ?ov k j" for k
    unfolding overlap_def Let_def ai aj using same by simp
  have ovk': "?ov k j = ?ov k i" for k by (simp add: ovk)
  obtain keep where keep: "nms tie x1 y1 x2 y2 scores thresh include_boundaries keep_top_k = Inr keep"
    using nms_returns[OF len] by blast
  then have run: "nms_loop x1 y1 x2 y2 ?areas b thresh ?order [] = Inr keep"
    by (simp add: nms_unfold[OF len(1-3)] b)
  from nms_loop_result[OF run] have sw: "sorted_wrt (\<lambda>a c. ?ov a c \<le> thresh) keep" by simp
  have li: "i < length scores" and lj: "j < length scores" using ij len(4) by simp_all
  have rest: "\<not> (i \<in> set keep \<and> j \<in> set keep)
            \<and> (scores ! i < scores ! j \<longrightarrow> i \<notin> set keep)
            \<and> (scores ! j < scores ! i \<longrightarrow> j \<notin> set keep)
            \<and> (scores ! i = scores ! j \<and> (length scores \<le> 17 \<or> tie scores i \<le> tie scores j)
                 \<longrightarrow> i \<notin> set keep)
            \<and> (scores ! i = scores ! j \<and> 17 < length scores \<and> tie scores j < tie scores i
                 \<longrightarrow> j \<notin> set keep)"
    if pos: "0 < x2 ! i - x1 ! i + b \<and> 0 < y2 ! i - y1 ! i + b" and thresh: "thresh < 1"
  proof -
    have ov1: "?ov i j = 1" using ov pos by simp
    have nij: "\<not> ?ov i j \<le> thresh" and nji: "\<not> ?ov j i \<le> thresh"
      using ov1 thresh by (simp_all add: overlap_sym[of _ _ _ _ _ _ j i])
    have both: "\<not> (i \<in> set keep \<and> j \<in> set keep)"
    proof
      assume "i \<in> set keep \<and> j \<in> set keep"
      with sorted_wrt_pair[OF sw, of i j] ij(1) have "?ov i j \<le> thresh \<or> ?ov j i \<le> thresh" by auto
      then show False using nij nji by simp
    qed
    have drop_i: "i \<notin> set keep" if "i \<notin> set (takeWhile (\<lambda>k. k \<noteq> j) ?order)"
      using nms_loop_dup[OF ovk nji _ that _ run] ij(1) by auto
    have drop_j: "j \<notin> set keep" if "j \<notin> set (takeWhile (\<lambda>k. k \<noteq> i) ?order)"
      using nms_loop_dup[OF ovk' nij _ that _ run] ij(1) by auto
    have 1: "i \<notin> set keep" if "scores ! i < scores ! j"
      by (rule drop_i, rule nms_order_tie[OF li lj]) (use that in simp)
    have 2: "j \<notin> set keep" if "scores ! j < scores ! i"
      by (rule drop_j, rule nms_order_tie[OF lj li]) (use that in simp)
    have 3: "i \<notin> set keep"
      if "scores ! i = scores ! j \<and> (length scores \<le> 17 \<or> tie scores i \<le> tie scores j)"
      by (rule drop_i, rule nms_order_tie[OF li lj]) (use that ij(1) in auto)
    have 4: "j \<notin> set keep"
      if "scores ! i = scores ! j \<and> 17 < length scores \<and> tie scores j < tie scores i"
      by (rule drop_j, rule nms_order_tie[OF lj li]) (use that in auto)
    show ?thesis using both 1 2 3 4 by blast
  qed
  show ?thesis using areas ov keep rest by blast
qed

theorem nms_identical_boxes_witness:
  "\<forall>tie. nms tie [0, 0] [0, 0] [1, 1] [1, 1] [9 / 10, 9 / 10] (1 / 2) False None = Inr [1]"
proof
  fix tie :: tie_order
  from nms_identical_boxes[of "[0, 0]" "[0, 0]" "[1, 1]" "[1, 1]" "[9 / 10, 9 / 10]" 0 1 0 False
      tie "1 / 2" None]
  show "nms tie [0, 0] [0, 0] [1, 1] [1, 1] [9 / 10, 9 / 10] (1 / 2) False None = Inr [1]"
    by (simp add: nms_def box_areas_def np_broadcast2_def nms_order_def argsort_def sort_key_def
        overlap_def in_bounds_def upt_rec)
qed

text \<open>
  The claim as worded fails in three ways. Two copies of the empty box \<open>(0,0,0,0)\<close>
  have a zero denominator, so their overlap is the guarded 0 and both are kept. Of
  three copies of one box only the first is kept, so of the last two none is. And
  among 18 boxes of one score, of which the boxes 1 and 2 are identical and the others
  disjoint, numpy's sort leaves the indices in the order \<open>0, 15, 14, \<dots>, 1, 16, 17\<close>,
  so the loop visits 17, 16, 1, 2, \<dots>: the box 1 is kept and the box 2, of the
  higher index, is suppressed.
\<close>

theorem nms_identical_boxes_counterexample:
  "box_areas [0, 0] [0, 0] [0, 0] [0, 0] 0 = Inr [0, 0]
   \<and> overlap [0, 0] [0, 0] [0, 0] [0, 0] [0, 0] 0 0 1 = 0
   \<and> (\<forall>tie. nms tie [0, 0] [0, 0] [0, 0] [0, 0] [9 / 10, 8 / 10] (1 / 2) False None = Inr [0, 1])
   \<and> (\<forall>tie. nms tie [0, 0, 0] [0, 0, 0] [1, 1, 1] [1, 1, 1] [9 / 10, 8 / 10, 7 / 10] (1 / 2)
              False None = Inr [0])
   \<and> sort_key (\<lambda>i. if i = 0 then 0 else if i \<le> 15 then 16 - i else i) [0..<18]
       = [0, 15, 14, 13, 12, 11, 10, 9, 8, 7, 6, 5, 4, 3, 2, 1, 16, 17 :: nat]
   \<and> nms (\<lambda>s i. if i = 0 then 0 else if i \<le> 15 then 16 - i else i)
       [0, 3, 3, 9, 12, 15, 18, 21, 24, 27, 30, 33, 36, 39, 42, 45, 48, 51]
       [0, 0, 0, 0, 0, 0, 0, 0, 0, 0, 0, 0, 0, 0, 0, 0, 0, 0]
       [1, 4, 4, 10, 13, 16, 19, 22, 25, 28, 31, 34, 37, 40, 43, 46, 49, 52]
       [1, 1, 1, 1, 1, 1, 1, 1, 1, 1, 1, 1, 1, 1, 1, 1, 1, 1]
       [1 / 2, 1 / 2, 1 / 2, 1 / 2, 1 / 2, 1 / 2, 1 / 2, 1 / 2, 1 / 2,
        1 / 2, 1 / 2, 1 / 2, 1 / 2, 1 / 2, 1 / 2, 1 / 2, 1 / 2, 1 / 2]
       (1 / 2) False None
       = Inr [17, 16, 1, 3, 4, 5, 6, 7, 8, 9, 10, 11, 12, 13, 14, 15, 0]"
proof -
  have small: "box_areas [0, 0] [0, 0] [0, 0] [0, 0] 0 = Inr [0, 0]
     \<and> overlap [0, 0] [0, 0] [0, 0] [0, 0] [0, 0] 0 0 1 = 0
     \<and> (\<forall>tie. nms tie [0, 0] [0, 0] [0, 0] [0, 0] [9 / 10, 8 / 10] (1 / 2) False None = Inr [0, 1])
     \<and> (\<forall>tie. nms tie [0, 0, 0] [0, 0, 0] [1, 1, 1] [1, 1, 1] [9 / 10, 8 / 10, 7 / 10] (1 / 2)
              False None = Inr [0])"
    by (simp add: nms_def box_areas_def np_broadcast2_def nms_order_def argsort_def sort_key_def
        overlap_def in_bounds_def upt_rec)
  have order: "sort_key (\<lambda>i. if i = 0 then 0 else if i \<le> 15 then 16 - i else i) [0..<18]
       = [0, 15, 14, 13, 12, 11, 10, 9, 8, 7, 6, 5, 4, 3, 2, 1, 16, 17 :: nat]"
    by code_simp
  have big: "nms (\<lambda>s i. if i = 0 then 0 else if i \<le> 15 then 16 - i else i)
       [0, 3, 3, 9, 12, 15, 18, 21, 24, 27, 30, 33, 36, 39, 42, 45, 48, 51]
       [0, 0, 0, 0, 0, 0, 0, 0, 0, 0, 0, 0, 0, 0, 0, 0, 0, 0]
       [1, 4, 4, 10, 13, 16, 19, 22, 25, 28, 31, 34, 37, 40, 43, 46, 49, 52]
       [1, 1, 1, 1, 1, 1, 1, 1, 1, 1, 1, 1, 1, 1, 1, 1, 1, 1]
       [1 / 2, 1 / 2, 1 / 2, 1 / 2, 1 / 2, 1 / 2, 1 / 2, 1 / 2, 1 / 2,
        1 / 2, 1 / 2, 1 / 2, 1 / 2, 1 / 2, 1 / 2, 1 / 2, 1 / 2, 1 / 2]
       (1 / 2) False None
       = Inr [17, 16, 1, 3, 4, 5, 6, 7, 8, 9, 10, 11, 12, 13, 14, 15, 0]"
    by code_simp
  show ?thesis using small order big by blast
qed

text \<open>
  Claim C7. When the five arrays have one length, \<open>nms\<close> returns, and running it
  again on the arrays restricted to the kept indices (same threshold and boundary flag)
  keeps every one of them: the second result is a list without repetition of all the
  positions of the restricted arrays.
\<close>

theorem nms_idempotent:
  assumes len: "length y1 = length x1" "length x2 = length x1" "length y2 = length x1"
               "length scores = length x1"
  shows "\<exists>keep keep2.
           nms tie x1 y1 x2 y2 scores thresh include_boundaries keep_top_k = Inr keep
         \<and> nms tie (map ((!) x1) keep) (map ((!) y1) keep) (map ((!) x2) keep) (map ((!) y2) keep)
               (map ((!) scores) keep) thresh include_boundaries None = Inr keep2
         \<and> set keep2 = {0..<length keep} \<and> distinct keep2"
proof -
  let ?b = "if include_boundaries then 1 else 0 :: real"
  let ?areas = "map (\<lambda>k. (x2 ! k - x1 ! k + ?b) * (y2 ! k - y1 ! k + ?b)) [0..<length x1]"
  let ?P = "\<lambda>a c. overlap x1 y1 x2 y2 ?areas ?b a c \<le> thresh"
  obtain keep where keep: "nms tie x1 y1 x2 y2 scores thresh include_boundaries keep_top_k = Inr keep"
    "set keep \<subseteq> {0..<length x1}" "distinct keep"
    using nms_returns[OF len] by blast
  from keep(1) have "nms_loop x1 y1 x2 y2 ?areas ?b thresh (nms_order tie scores keep_top_k) [] = Inr keep"
    by (simp add: nms_unfold[OF len(1-3)])
  from nms_loop_result[OF this] have sw: "sorted_wrt ?P keep" by simp
  let ?gx1 = "map ((!) x1) keep" and ?gy1 = "map ((!) y1) keep"
  let ?gx2 = "map ((!) x2) keep" and ?gy2 = "map ((!) y2) keep"
  let ?gs = "map ((!) scores) keep"
  let ?ga = "map (\<lambda>k. (?gx2 ! k - ?gx1 ! k + ?b) * (?gy2 ! k - ?gy1 ! k + ?b)) [0..<length ?gx1]"
  let ?order = "nms_order tie ?gs None"
  have order: "set ?order = {0..<length keep}" "distinct ?order"
    by (simp_all add: nms_order_def)
  have inb: "list_all (in_bounds ?gx1 ?gy1 ?gx2 ?gy2 ?ga) ?order"
    using order(1) by (auto simp: list_all_iff in_bounds_def)
  have pair: "\<forall>p\<in>set ?order. \<forall>q\<in>set ?order. p \<noteq> q \<longrightarrow>
                overlap ?gx1 ?gy1 ?gx2 ?gy2 ?ga ?b p q \<le> thresh"
  proof (intro ballI impI)
    fix p q assume "p \<in> set ?order" "q \<in> set ?order" "p \<noteq> q"
    then have pq: "p < length keep" "q < length keep" using order(1) by auto
    with \<open>p \<noteq> q\<close> keep(3) have "keep ! p \<noteq> keep ! q" by (simp add: nth_eq_iff_index_eq)
    with sorted_wrt_pair[OF sw, of "keep ! p" "keep ! q"] pq
    have "?P (keep ! p) (keep ! q)" by (auto simp: overlap_sym[of _ _ _ _ _ _ "keep ! q"])
    then show "overlap ?gx1 ?gy1 ?gx2 ?gy2 ?ga ?b p q \<le> thresh"
      using overlap_gather[OF len(1-3) keep(2) pq, of ?b] by simp
  qed
  have "nms tie ?gx1 ?gy1 ?gx2 ?gy2 ?gs thresh include_boundaries None
          = nms_loop ?gx1 ?gy1 ?gx2 ?gy2 ?ga ?b thresh ?order []"
    by (rule nms_unfold) simp_all
  also have "\<dots> = Inr ([] @ ?order)"
    using inb order(2) pair by (rule nms_loop_keep_all)
  finally show ?thesis using keep(1) order by auto
qed

theorem nms_idempotent_witness:
  "\<forall>tie. nms tie [0, 0, 5] [0, 0, 5] [2, 2, 7] [2, 2, 7] [9 / 10, 8 / 10, 7 / 10] (1 / 2) True None
           = Inr [0, 2]
       \<and> nms tie [0, 5] [0, 5] [2, 7] [2, 7] [9 / 10, 7 / 10] (1 / 2) True None = Inr [0, 1]"
proof
  fix tie :: tie_order
  from nms_idempotent[of "[0, 0, 5]" "[0, 0, 5]" "[2, 2, 7]" "[2, 2, 7]"
      "[9 / 10, 8 / 10, 7 / 10]" tie "1 / 2" True None]
  show "nms tie [0, 0, 5] [0, 0, 5] [2, 2, 7] [2, 2, 7] [9 / 10, 8 / 10, 7 / 10] (1 / 2) True None
           = Inr [0, 2]
       \<and> nms tie [0, 5] [0, 5] [2, 7] [2, 7] [9 / 10, 7 / 10] (1 / 2) True None = Inr [0, 1]"
    by (simp add: nms_def box_areas_def np_broadcast2_def nms_order_def argsort_def sort_key_def
        overlap_def in_bounds_def upt_rec)
qed

section \<open>Properties of the topology dispatcher\<close>

text \<open>
  The batch-size assertion works: a model that \<open>check_model\<close> accepts has an image
  input whose first dimension is 1.
\<close>

lemma check_model_batch:
  "check_model n = Inr (img, info, shp, pp) \<Longrightarrow> hd shp = 1 \<and> map_of (input_info n) img = Some shp"
  by (auto simp: check_model_def Let_def bind_r_def
           split: if_splits option.splits sum.splits prod.splits)

text \<open>
  Claim C2 says that a model without a required output is rejected. The code does not
  do that: the assertion tests a tuple, which is always true, so the result of
  \<open>check_model\<close> does not depend on the declared outputs at all. A prototype-mask model
  with no output and a region-proposal model with the single output \<^verbatim>\<open>boxes\<close> are
  both accepted.
\<close>

theorem check_model_ignores_outputs:
  "check_model \<lparr>input_info = ins, output_keys = outs\<rparr> = check_model \<lparr>input_info = ins, output_keys = []\<rparr>
   \<and> \<not> set [''boxes'', ''conf'', ''proto'', ''mask''] \<subseteq> set ([] :: string list)
   \<and> check_model \<lparr>input_info = [(''image'', [1, 3, 550, 550])], output_keys = []\<rparr>
       = Inr (''image'', None, [1, 3, 550, 550], Yolact_postprocess)
   \<and> \<not> set [''boxes'', ''scores'', ''classes'', ''raw_masks''] \<subseteq> set [''boxes'']
   \<and> check_model \<lparr>input_info = [(''im_data'', [1, 3, 480, 480]), (''im_info'', [1, 3])],
                    output_keys = [''boxes'']\<rparr>
       = Inr (''im_data'', Some ''im_info'', [1, 3, 480, 480], Mask_rcnn_postprocess)"
proof (intro conjI)
  show "check_model \<lparr>input_info = ins, output_keys = outs\<rparr> = check_model \<lparr>input_info = ins, output_keys = []\<rparr>"
    unfolding check_model_def py_bool_pair_def
    by (simp cong: option.case_cong prod.case_cong if_cong)
qed (simp_all add: check_model_def py_bool_pair_def py_bool_name_def MODEL_ATTRIBUTES_def bind_r_def)

section \<open>Properties of arrays and of the crop step\<close>

lemma shape_nd3 [simp]: "shape (nd3 d0 d1 d2 f) = [d0, d1, d2]"
  by (simp add: nd3_def)

lemma flat3_less:
  assumes "i < d0" "j < d1" "k < (d2::nat)"
  shows "(i * d1 + j) * d2 + k < d0 * d1 * d2"
proof -
  have "i * d1 + j < d0 * d1"
  proof -
    have "i * d1 + j < i * d1 + d1" using assms(2) by simp
    also have "\<dots> = (Suc i) * d1" by simp
    also have "\<dots> \<le> d0 * d1" using assms(1) by (intro mult_le_mono1) simp
    finally show ?thesis .
  qed
  then have "(i * d1 + j) * d2 + k < (i * d1 + j) * d2 + d2" using assms(3) by simp
  also have "\<dots> = Suc (i * d1 + j) * d2" by simp
  also have "\<dots> \<le> (d0 * d1) * d2" using \<open>i * d1 + j < d0 * d1\<close> by (intro mult_le_mono1) simp
  finally show ?thesis .
qed

lemma at3_nd3:
  assumes "i < d0" "j < d1" "k < d2"
  shows "at3 (nd3 d0 d1 d2 f) i j k = f i j k"
proof -
  let ?p = "(i * d1 + j) * d2 + k"
  have p: "?p < d0 * d1 * d2" using assms by (rule flat3_less)
  have a: "?p mod d2 = k" using assms(3) by simp
  have b: "?p div d2 = i * d1 + j" using assms(3) by simp
  have c: "(i * d1 + j) mod d1 = j" using assms(2) by simp
  have d: "?p div (d1 * d2) = i"
  proof -
    have "?p div (d1 * d2) = (?p div d2) div d1"
      by (simp only: mult.commute[of d1 d2] div_mult2_eq)
    also have "\<dots> = i" using assms(2) by (simp add: b)
    finally show ?thesis .
  qed
  show ?thesis using p assms by (simp add: at3_def nd3_def a b c d del: upt_Suc)
qed

lemma length_np_repeat [simp]: "length (np_repeat xs k) = length xs * k"
  by (induction xs) (simp_all add: np_repeat_def)

lemma np_repeat_nth: "p < length xs * k \<Longrightarrow> np_repeat xs k ! p = xs ! (p div k)"
proof (induction xs arbitrary: p)
  case Nil
  then show ?case by simp
next
  case (Cons x xs)
  have k: "0 < k" using Cons.prems by (cases k) auto
  show ?case
  proof (cases "p < k")
    case True
    then show ?thesis by (simp add: np_repeat_def nth_append)
  next
    case False
    then have "p - k < length xs * k" using Cons.prems by simp
    from Cons.IH[OF this] have "np_repeat xs k ! (p - k) = xs ! ((p - k) div k)" .
    moreover have "p div k = Suc ((p - k) div k)" using False k
      by (simp add: le_div_geq)
    ultimately show ?thesis using False
      by (simp add: np_repeat_def nth_append)
  qed
qed

lemma bdim_same [simp]: "bdim a a = Some a"
  by (simp add: bdim_def)

lemma bdim_one [simp]: "bdim a (Suc 0) = Some a"
  by (simp add: bdim_def)

lemma bc_index: "i < a \<Longrightarrow> (if a = Suc 0 then 0 else i) = i"
  by auto

lemma broadcast3_same:
  assumes "shape A = [a, b, c]" "shape B = [a, b, c]"
  shows "\<exists>R. np_broadcast3 f A B = Inr R \<and> shape R = [a, b, c]
           \<and> (\<forall>i<a. \<forall>j<b. \<forall>k<c. at3 R i j k = f (at3 A i j k) (at3 B i j k))"
  using assms by (simp add: np_broadcast3_def at3_nd3 bc_index)

lemma at3_as3 [simp]: "at3 \<lparr>shape = [Suc 0, Suc 0, c], elems = v\<rparr> 0 0 k = v ! k"
  by (simp add: at3_def)

lemma broadcast3_vec:
  assumes "shape A = [a, b, c]" "length v = c"
  shows "\<exists>R. np_broadcast3 f A (as3 v) = Inr R \<and> shape R = [a, b, c]
           \<and> (\<forall>i<a. \<forall>j<b. \<forall>k<c. at3 R i j k = f (at3 A i j k) (v ! k))"
  using assms by (simp add: np_broadcast3_def as3_def at3_nd3 bc_index)

lemma nd_column_ok:
  "shape A = [r, c] \<Longrightarrow> j < c \<Longrightarrow> nd_column A j = Inr (map (\<lambda>i. elems A ! (i * c + j)) [0..<r])"
  by (simp add: nd_column_def)

lemma length_sanitize [simp]:
  "length (fst (sanitize_coordinates a c sz sh p)) = length a"
  "length (snd (sanitize_coordinates a c sz sh p)) = length c"
  by (simp_all add: sanitize_coordinates_def Let_def)

lemma grid_at:
  assumes "a < h" "b < h" "c < n"
  shows "at3 \<lparr>shape = [h, h, n], elems = np_repeat (np_repeat (np_arange h) h) n\<rparr> a b c = real a"
proof -
  let ?p = "(a * h + b) * n + c"
  have p: "?p < h * h * n" using assms by (rule flat3_less)
  have 1: "?p div n = a * h + b" using assms(3) by simp
  have 2: "(a * h + b) div h = a" using assms(2) by simp
  have "a * h + b < h * h" using p assms(3) 1
    by (metis less_mult_imp_div_less mult.commute)
  then have "np_repeat (np_repeat (np_arange h) h) n ! ?p = real a"
    using p assms(1) by (simp add: np_repeat_nth np_arange_def 1 2 mult.assoc)
  then show ?thesis by (simp add: at3_def)
qed

lemma crop_mask_square:
  assumes m: "shape masks = [h, h, n]" and b: "shape boxes = [n, 4]"
  shows "\<exists>R. crop_mask masks boxes padding = Inr R \<and> shape R = [h, h, n]
     \<and> (\<forall>p<h. \<forall>q<h. \<forall>c<n. at3 R p q c = at3 masks p q c *
           (if fst (sanitize_coordinates (projr (nd_column boxes 0)) (projr (nd_column boxes 2)) h 0 padding) ! c \<le> real q
             \<and> real q < snd (sanitize_coordinates (projr (nd_column boxes 0)) (projr (nd_column boxes 2)) h 0 padding) ! c
             \<and> fst (sanitize_coordinates (projr (nd_column boxes 1)) (projr (nd_column boxes 3)) h 0 padding) ! c \<le> real p
             \<and> real p < snd (sanitize_coordinates (projr (nd_column boxes 1)) (projr (nd_column boxes 3)) h 0 padding) ! c
            then 1 else 0))"
proof -
  define bx where "bx = (\<lambda>j. map (\<lambda>i. elems boxes ! (i * 4 + j)) [0..<n])"
  have col: "nd_column boxes j = Inr (bx j)" if "j < 4" for j
    using nd_column_ok[OF b that] by (simp add: bx_def)
  define x1 where "x1 = fst (sanitize_coordinates (bx 0) (bx 2) h 0 padding)"
  define x2 where "x2 = snd (sanitize_coordinates (bx 0) (bx 2) h 0 padding)"
  define y1 where "y1 = fst (sanitize_coordinates (bx 1) (bx 3) h 0 padding)"
  define y2 where "y2 = snd (sanitize_coordinates (bx 1) (bx 3) h 0 padding)"
  have sx: "sanitize_coordinates (bx 0) (bx 2) h 0 padding = (x1, x2)" by (simp add: x1_def x2_def)
  have sy: "sanitize_coordinates (bx (Suc 0)) (bx 3) h 0 padding = (y1, y2)" by (simp add: y1_def y2_def)
  have len: "length x1 = n" "length x2 = n" "length y1 = n" "length y2 = n"
    by (simp_all add: x1_def x2_def y1_def y2_def bx_def)
  define grid where "grid = \<lparr>shape = [h, h, n], elems = np_repeat (np_repeat (np_arange h) h) n\<rparr>"
  have r2: "np_reshape (np_repeat (np_arange h) h) [h, h]
              = Inr \<lparr>shape = [h, h], elems = np_repeat (np_arange h) h\<rparr>"
    by (simp add: np_reshape_def np_arange_def)
  have r3: "np_reshape (elems (np_repeat_last \<lparr>shape = [h, h], elems = np_repeat (np_arange h) h\<rparr> n)) [h, h, n]
              = Inr grid"
    by (simp add: np_reshape_def np_repeat_last_def np_arange_def grid_def)
  define rowsT where "rowsT = nd3 h h n (\<lambda>j i k. at3 grid i j k)"
  have tr: "transpose_102 grid = Inr rowsT"
    by (simp add: transpose_102_def grid_def rowsT_def)
  have sg: "shape grid = [h, h, n]" by (simp add: grid_def)
  have sr: "shape rowsT = [h, h, n]" by (simp add: rowsT_def)
  have gat: "at3 grid i j k = real i" if "i < h" "j < h" "k < n" for i j k
    unfolding grid_def using that by (rule grid_at)
  have rat: "at3 rowsT i j k = real j" if "i < h" "j < h" "k < n" for i j k
    using that by (simp add: rowsT_def at3_nd3 gat)
  obtain ml where ml: "np_broadcast3 (\<lambda>u v. v \<le> u) rowsT (as3 x1) = Inr ml" "shape ml = [h, h, n]"
    "\<forall>i<h. \<forall>j<h. \<forall>k<n. at3 ml i j k = (x1 ! k \<le> at3 rowsT i j k)"
    using broadcast3_vec[OF sr len(1), of "\<lambda>u v. v \<le> u"] by blast
  obtain mr where mr: "np_broadcast3 (\<lambda>u v. u < v) rowsT (as3 x2) = Inr mr" "shape mr = [h, h, n]"
    "\<forall>i<h. \<forall>j<h. \<forall>k<n. at3 mr i j k = (at3 rowsT i j k < x2 ! k)"
    using broadcast3_vec[OF sr len(2), of "\<lambda>u v. u < v"] by blast
  obtain mu where mu: "np_broadcast3 (\<lambda>u v. v \<le> u) grid (as3 y1) = Inr mu" "shape mu = [h, h, n]"
    "\<forall>i<h. \<forall>j<h. \<forall>k<n. at3 mu i j k = (y1 ! k \<le> at3 grid i j k)"
    using broadcast3_vec[OF sg len(3), of "\<lambda>u v. v \<le> u"] by blast
  obtain md where md: "np_broadcast3 (\<lambda>u v. u < v) grid (as3 y2) = Inr md" "shape md = [h, h, n]"
    "\<forall>i<h. \<forall>j<h. \<forall>k<n. at3 md i j k = (at3 grid i j k < y2 ! k)"
    using broadcast3_vec[OF sg len(4), of "\<lambda>u v. u < v"] by blast
  obtain lr where lr: "np_broadcast3 (\<lambda>u v. u \<and> v) ml mr = Inr lr" "shape lr = [h, h, n]"
    "\<forall>i<h. \<forall>j<h. \<forall>k<n. at3 lr i j k = (at3 ml i j k \<and> at3 mr i j k)"
    using broadcast3_same[OF ml(2) mr(2), of "\<lambda>u v. u \<and> v"] by blast
  obtain lru where lru: "np_broadcast3 (\<lambda>u v. u \<and> v) lr mu = Inr lru" "shape lru = [h, h, n]"
    "\<forall>i<h. \<forall>j<h. \<forall>k<n. at3 lru i j k = (at3 lr i j k \<and> at3 mu i j k)"
    using broadcast3_same[OF lr(2) mu(2), of "\<lambda>u v. u \<and> v"] by blast
  obtain crop where crop: "np_broadcast3 (\<lambda>u v. u \<and> v) lru md = Inr crop" "shape crop = [h, h, n]"
    "\<forall>i<h. \<forall>j<h. \<forall>k<n. at3 crop i j k = (at3 lru i j k \<and> at3 md i j k)"
    using broadcast3_same[OF lru(2) md(2), of "\<lambda>u v. u \<and> v"] by blast
  obtain R where R: "np_broadcast3 (\<lambda>m c. m * (if c then 1 else 0)) masks crop = Inr R" "shape R = [h, h, n]"
    "\<forall>i<h. \<forall>j<h. \<forall>k<n. at3 R i j k = at3 masks i j k * (if at3 crop i j k then 1 else 0)"
    using broadcast3_same[OF m crop(2), of "\<lambda>m c. m * (if c then 1 else 0 :: real)"] by blast
  have run: "crop_mask masks boxes padding = Inr R"
    by (simp add: crop_mask_def m col sx sy r2 r3 tr ml(1) mr(1) mu(1) md(1) lr(1) lru(1) crop(1) R(1))
  have val: "at3 R p q c = at3 masks p q c *
      (if x1 ! c \<le> real q \<and> real q < x2 ! c \<and> y1 ! c \<le> real p \<and> real p < y2 ! c then 1 else 0)"
    if "p < h" "q < h" "c < n" for p q c
    using that R(3) crop(3) lru(3) lr(3) ml(3) mr(3) mu(3) md(3) by (simp add: gat rat)
  show ?thesis
    using run R(2) val by (simp add: col x1_def x2_def y1_def y2_def)
qed


lemma crop_mask_not_square:
  assumes m: "shape masks = [h, w, n]" and b: "shape boxes = [k, 4]" and "h \<noteq> w" "0 < h"
  shows "crop_mask masks boxes padding = Inl ValueError"
proof -
  have col: "\<exists>v. nd_column boxes j = Inr v" if "j < 4" for j
    using nd_column_ok[OF b that] by simp
  obtain c0 c1 c2 c3 where c: "nd_column boxes 0 = Inr c0" "nd_column boxes 1 = Inr c1"
     "nd_column boxes 2 = Inr c2" "nd_column boxes 3 = Inr c3"
    using col[of 0] col[of 1] col[of 2] col[of 3] by auto
  have r2: "np_reshape (np_repeat (np_arange w) h) [w, h]
              = Inr \<lparr>shape = [w, h], elems = np_repeat (np_arange w) h\<rparr>"
    by (simp add: np_reshape_def np_arange_def)
  have r3: "\<exists>g. np_reshape (elems (np_repeat_last \<lparr>shape = [w, h], elems = np_repeat (np_arange w) h\<rparr> n)) [h, w, n]
              = Inr g"
    by (simp add: np_reshape_def np_repeat_last_def np_arange_def)
  have bad: "np_reshape (np_repeat (np_arange h) h) [w, h] = Inl ValueError"
    using assms(3,4) by (simp add: np_reshape_def np_arange_def)
  from r3 obtain g where g: "np_reshape (elems (np_repeat_last \<lparr>shape = [w, h], elems = np_repeat (np_arange w) h\<rparr> n)) [h, w, n] = Inr g" by blast
  have c1: "nd_column boxes (Suc 0) = Inr c1" using c(2) by simp
  show ?thesis
    by (simp add: crop_mask_def m c c1 r2 g bad split: prod.splits)
qed


text \<open>
  Claim C10. For a map of shape \<open>H \<times> W \<times> N\<close> and \<open>N\<close> boxes of four
  coordinates: when \<open>H = W\<close> the crop step returns an array of the same shape, each
  pixel being the input times the test of the four inequalities (the column index
  against the sanitized \<open>x1, x2\<close>, the row index against \<open>y1, y2\<close>); when \<open>H \<noteq> W\<close> and
  \<open>H \<ge> 1\<close> the reshape of the \<open>H \<sqdot> H\<close> elements of the column grid to \<open>W \<times> H\<close> raises
  \<^verbatim>\<open>ValueError\<close>. The map is a feature map of the network (the product
  \<^verbatim>\<open>proto_data @ masks.T\<close>) and has at least one row.
\<close>

theorem crop_mask_square_only:
  assumes "shape masks = [h, w, n]" and "shape boxes = [n, 4]"
  shows "(h = w \<longrightarrow>
           (\<exists>R. crop_mask masks boxes padding = Inr R \<and> shape R = [h, w, n]
             \<and> (\<forall>p<h. \<forall>q<w. \<forall>c<n. at3 R p q c = at3 masks p q c *
                  (if fst (sanitize_coordinates (projr (nd_column boxes 0)) (projr (nd_column boxes 2)) w 0 padding) ! c \<le> real q
                    \<and> real q < snd (sanitize_coordinates (projr (nd_column boxes 0)) (projr (nd_column boxes 2)) w 0 padding) ! c
                    \<and> fst (sanitize_coordinates (projr (nd_column boxes 1)) (projr (nd_column boxes 3)) h 0 padding) ! c \<le> real p
                    \<and> real p < snd (sanitize_coordinates (projr (nd_column boxes 1)) (projr (nd_column boxes 3)) h 0 padding) ! c
                   then 1 else 0))))
       \<and> (h \<noteq> w \<and> 0 < h \<longrightarrow> crop_mask masks boxes padding = Inl ValueError)"
proof (intro conjI impI)
  assume "h = w"
  then show "\<exists>R. crop_mask masks boxes padding = Inr R \<and> shape R = [h, w, n]
             \<and> (\<forall>p<h. \<forall>q<w. \<forall>c<n. at3 R p q c = at3 masks p q c *
                  (if fst (sanitize_coordinates (projr (nd_column boxes 0)) (projr (nd_column boxes 2)) w 0 padding) ! c \<le> real q
                    \<and> real q < snd (sanitize_coordinates (projr (nd_column boxes 0)) (projr (nd_column boxes 2)) w 0 padding) ! c
                    \<and> fst (sanitize_coordinates (projr (nd_column boxes 1)) (projr (nd_column boxes 3)) h 0 padding) ! c \<le> real p
                    \<and> real p < snd (sanitize_coordinates (projr (nd_column boxes 1)) (projr (nd_column boxes 3)) h 0 padding) ! c
                   then 1 else 0))"
    using crop_mask_square[of masks h n boxes padding] assms by simp
next
  assume "h \<noteq> w \<and> 0 < h"
  then show "crop_mask masks boxes padding = Inl ValueError"
    using crop_mask_not_square[OF assms(1,2)] by simp
qed

theorem crop_mask_square_only_witness:
  "crop_mask \<lparr>shape = [2, 2, 1], elems = [1, 2, 3, 4]\<rparr> \<lparr>shape = [1, 4], elems = [0, 0, 1 / 2, 1]\<rparr> 0
     = Inr \<lparr>shape = [2, 2, 1], elems = [1, 0, 3, 0]\<rparr>
   \<and> crop_mask \<lparr>shape = [1, 2, 1], elems = [1, 1]\<rparr> \<lparr>shape = [1, 4], elems = [0, 0, 1, 1]\<rparr> 1
     = Inl ValueError"
proof -
  have square: "crop_mask \<lparr>shape = [2, 2, 1], elems = [1, 2, 3, 4]\<rparr>
                  \<lparr>shape = [1, 4], elems = [0, 0, 1 / 2, 1]\<rparr> 0
                = Inr \<lparr>shape = [2, 2, 1], elems = [1, 0, 3, 0]\<rparr>"
    by code_simp
  have "shape \<lparr>shape = [1, 2, 1], elems = [1, 1 :: real]\<rparr> = [1, 2, 1]"
    and "shape \<lparr>shape = [1, 4], elems = [0, 0, 1, 1 :: real]\<rparr> = [1, 4]"
    by simp_all
  from crop_mask_square_only[OF this, of 1] square show ?thesis by simp
qed

section \<open>Properties of the store and of the postprocessors\<close>


lemma alloc_simps [simp]:
  "snd (alloc hp v) = next_free hp"
  "next_free (fst (alloc hp v)) = Suc (next_free hp)"
  "cells (fst (alloc hp v)) a = (if a = next_free hp then v else cells hp a)"
  by (simp_all add: alloc_def)

lemma store_simps [simp]:
  "next_free (store hp a v) = next_free hp"
  "cells (store hp a v) b = (if b = a then v else cells hp b)"
  by (simp_all add: store_def)


lemma py_getitem_Inr [simp]: "(py_getitem d k = Inr a) = (d k = Some a)"
  by (simp add: py_getitem_def split: option.splits)

lemma bind_r_eq_Inr: "(bind_r m f = Inr r) = (\<exists>v. m = Inr v \<and> f v = Inr r)"
  by (cases m) (auto simp: bind_r_def)










lemma nd_assign2_zeros:
  assumes "nd_assign2 (np_zeros2 h w) r0 r1 c0 c1 V = Inr im"
  shows "shape im = [h, w] \<and> length (elems im) = h * w
     \<and> (\<forall>i<h. \<forall>j<w. \<not> (fst (py_slice h r0 r1) \<le> i \<and> i < fst (py_slice h r0 r1) + snd (py_slice h r0 r1)
                        \<and> fst (py_slice w c0 c1) \<le> j \<and> j < fst (py_slice w c0 c1) + snd (py_slice w c0 c1))
          \<longrightarrow> elems im ! (i * w + j) = 0)"
proof -
  have lt: "i * w + j < h * w" if "i < h" "j < w" for i j
  proof -
    have "i * w + j < i * w + w" using that by simp
    also have "\<dots> = Suc i * w" by simp
    also have "\<dots> \<le> h * w" using that by (intro mult_le_mono1) simp
    finally show ?thesis .
  qed
  show ?thesis
    using assms lt
    by (auto simp: nd_assign2_def np_zeros2_def Let_def case_prod_beta split: list.splits if_splits)
qed



lemma shape_nd_set_column [simp]: "shape (nd_set_column A j v) = shape A"
  by (simp add: nd_set_column_def Let_def)














lemma nd_column_matrix:
  "shape A = [r, c] \<Longrightarrow> j < c \<Longrightarrow> nd_column A j = Inr (map (\<lambda>i. elems A ! (i * c + j)) [0..<r])"
  by (simp add: nd_column_def)

lemma class_loop_none:
  assumes "shape conf0 = [n, nc]"
    and "\<forall>k\<in>set classes. k < nc \<and> (\<forall>i<n. \<not> thr < elems conf0 ! (i * nc + k))"
  shows "class_loop tie boxes conf0 fw fh thr classes acc = Inr acc"
  using assms(2)
proof (induction classes)
  case Nil
  then show ?case by simp
next
  case (Cons k classes)
  obtain il cl sl where acc: "acc = (il, cl, sl)" by (cases acc) auto
  from Cons.prems have k: "k < nc" and no: "\<forall>i<n. \<not> thr < elems conf0 ! (i * nc + k)" by simp_all
  have col: "nd_column conf0 k = Inr (map (\<lambda>i. elems conf0 ! (i * nc + k)) [0..<n])"
    by (rule nd_column_matrix[OF assms(1) k])
  have empty: "filter (\<lambda>s. thr < s) (map (\<lambda>i. elems conf0 ! (i * nc + k)) [0..<n]) = []"
    using no by (simp add: filter_empty_conv)
  have "class_loop tie boxes conf0 fw fh thr (k # classes) (il, cl, sl)
      = class_loop tie boxes conf0 fw fh thr classes (il, cl, sl)"
    by (simp only: class_loop.simps col sum.case Let_def empty list.size if_True simp_thms)
  moreover have "class_loop tie boxes conf0 fw fh thr classes (il, cl, sl) = Inr (il, cl, sl)"
    unfolding acc[symmetric] by (rule Cons.IH) (use Cons.prems in simp)
  ultimately show ?case by (simp only: acc)
qed

lemma nd_mask_none:
  assumes sh: "shape A = n # ds" and len: "length keep = n" and no: "\<forall>b\<in>set keep. \<not> b"
  shows "nd_mask A keep = Inr \<lparr>shape = 0 # ds, elems = []\<rparr>"
proof -
  have "\<not> keep ! i" if "i < n" for i
    using no that len nth_mem[of i keep] by blast
  then have f: "filter (\<lambda>i. keep ! i) [0..<n] = []"
    by (simp add: filter_empty_conv)
  have "nd_mask A keep = nd_take A []"
    unfolding nd_mask_def by (simp only: sh list.case len simp_thms if_False f)
  also have "\<dots> = Inr \<lparr>shape = 0 # ds, elems = []\<rparr>"
    unfolding nd_take_def by (simp add: sh)
  finally show ?thesis .
qed

text \<open>
  Claim C1, as the code has it. When the tensors have the ranks of the interface, the
  frame is not empty and no score of \<^verbatim>\<open>outputs['conf'][0]\<close> exceeds \<open>conf_threshold\<close>,
  every class is skipped, the three lists stay empty and \<^verbatim>\<open>np.concatenate\<close> raises
  \<^verbatim>\<open>ValueError\<close>: \<open>yolact_postprocess\<close> does not return. When \<open>score_threshold > 0\<close>
  and no score exceeds it, \<open>yolact_segm_postprocess\<close> returns the list \<^verbatim>\<open>[] * 4\<close>,
  which is the one empty list and not four containers; no array that existed before the
  call is changed.
\<close>

theorem yolact_no_detections:
  assumes keys: "outputs ''boxes'' = Some a_boxes" "outputs ''conf'' = Some a_conf"
      "outputs ''mask'' = Some a_mask" "outputs ''proto'' = Some a_proto"
    and batch: "nd_first (cells hp a_boxes) = Inr boxes" "nd_first (cells hp a_conf) = Inr conf0"
      "nd_first (cells hp a_mask) = Inr masks" "nd_first (cells hp a_proto) = Inr proto"
    and conf: "shape conf0 = [n, num_classes]"
    and frame: "0 < frame_width" "0 < frame_height"
    and low: "\<forall>i<n. \<forall>cls<num_classes. elems conf0 ! (i * num_classes + cls) \<le> conf_threshold"
    and thr: "0 < score_threshold"
    and score: "shape (cells hp2 score) = [m]" "length (elems (cells hp2 score)) = m"
      "\<forall>v\<in>set (elems (cells hp2 score)). v \<le> score_threshold"
    and shapes: "shape (cells hp2 bxs) = m # ds1" "shape coeffs = m # ds2"
      "shape (cells hp2 classes) = m # ds3"
    and used: "bxs < next_free hp2" "classes < next_free hp2"
  shows "yolact_postprocess tie resize hp outputs scale_x scale_y frame_height frame_width
           input_height input_width conf_threshold = Inl ValueError
       \<and> (\<exists>hp'. yolact_segm_postprocess resize hp2 bxs coeffs score classes proto_data w h
                   score_threshold shift_x shift_y = Inr (hp', PyEmptyList)
                 \<and> (\<forall>a<next_free hp2. cells hp' a = cells hp2 a))"
proof
  have cl: "class_loop tie boxes conf0 frame_width frame_height conf_threshold
      [1..<num_classes] ([], [], []) = Inr ([], [], [])"
    by (rule class_loop_none[OF conf]) (use low in \<open>auto simp: not_less\<close>)
  have g: "py_getitem outputs ''boxes'' = Inr a_boxes" "py_getitem outputs ''conf'' = Inr a_conf"
    "py_getitem outputs ''mask'' = Inr a_mask" "py_getitem outputs ''proto'' = Inr a_proto"
    by (simp_all add: py_getitem_def keys)
  have fr: "\<not> (frame_width = 0 \<or> frame_height = 0)" using frame by simp
  show "yolact_postprocess tie resize hp outputs scale_x scale_y frame_height frame_width
           input_height input_width conf_threshold = Inl ValueError"
    unfolding yolact_postprocess_def
    apply (simp only: g bind_r_Inr batch)
    apply (simp only: conf list.case)
    apply (simp only: fr if_False)
    apply (simp only: Let_def cl bind_r_Inr case_prod_conv simp_thms if_True)
    done
next
  let ?keep = "map (\<lambda>s. score_threshold < s) (elems (cells hp2 score))"
  have k: "length ?keep = m" "\<forall>b\<in>set ?keep. \<not> b" using score by (auto simp: not_less)
  define Z where "Z = (\<lambda>ds. \<lparr>shape = 0 # ds, elems = [] :: real list\<rparr>)"
  define h1 where "h1 = fst (alloc hp2 (Z []))"
  define h2 where "h2 = fst (alloc h1 (Z ds1))"
  define h3 where "h3 = fst (alloc h2 (Z ds3))"
  have 1: "as_vec (cells hp2 score) = Inr (elems (cells hp2 score))"
    using score(1) by (simp add: as_vec_def)
  have 2: "nd_mask (cells hp2 score) ?keep = Inr (Z [])"
    unfolding Z_def by (rule nd_mask_none[OF score(1) k])
  have 3: "nd_mask (cells h1 bxs) ?keep = Inr (Z ds1)"
  proof -
    have "cells h1 bxs = cells hp2 bxs" using used(1) by (simp add: h1_def)
    then show ?thesis unfolding Z_def using nd_mask_none[OF shapes(1) k] by simp
  qed
  have 4: "nd_mask coeffs ?keep = Inr (Z ds2)"
    unfolding Z_def by (rule nd_mask_none[OF shapes(2) k])
  have 5: "nd_mask (cells h2 classes) ?keep = Inr (Z ds3)"
  proof -
    have "cells h2 classes = cells hp2 classes" using used(2) by (simp add: h2_def h1_def)
    then show ?thesis unfolding Z_def using nd_mask_none[OF shapes(3) k] by simp
  qed
  have a1: "alloc hp2 (Z []) = (h1, next_free hp2)" by (simp add: h1_def alloc_def)
  have a2: "alloc h1 (Z ds1) = (h2, next_free h1)" by (simp add: h2_def alloc_def)
  have a3: "alloc h2 (Z ds3) = (h3, next_free h2)" by (simp add: h3_def alloc_def)
  have sz: "np_size (Z []) = 0" by (simp add: np_size_def Z_def)
  have run: "yolact_segm_postprocess resize hp2 bxs coeffs score classes proto_data w h
                   score_threshold shift_x shift_y = Inr (h3, PyEmptyList)"
    unfolding yolact_segm_postprocess_def
    apply (simp only: thr if_True 1 bind_r_Inr Let_def 2 a1 case_prod_conv 3 a2 4 5 a3 sz simp_thms)
    done
  have "\<forall>a<next_free hp2. cells h3 a = cells hp2 a"
    by (simp add: h3_def h2_def h1_def)
  then show "\<exists>hp'. yolact_segm_postprocess resize hp2 bxs coeffs score classes proto_data w h
                   score_threshold shift_x shift_y = Inr (hp', PyEmptyList)
                 \<and> (\<forall>a<next_free hp2. cells hp' a = cells hp2 a)"
    using run by blast
qed

theorem yolact_no_detections_witness:
  "\<forall>tie resize.
     yolact_postprocess tie resize
       \<lparr>cells = (\<lambda>a. if a = 0 then \<lparr>shape = [1, 1, 4], elems = [0, 0, 1, 1]\<rparr>
                     else if a = 1 then \<lparr>shape = [1, 1, 2], elems = [2 / 5, 1 / 10]\<rparr>
                     else if a = 2 then \<lparr>shape = [1, 1, 1], elems = [1]\<rparr>
                     else \<lparr>shape = [1, 1, 1, 1], elems = [1]\<rparr>),
            next_free = 4\<rparr>
       [''boxes'' \<mapsto> 0, ''conf'' \<mapsto> 1, ''mask'' \<mapsto> 2, ''proto'' \<mapsto> 3] 1 1 2 2 2 2 (1 / 2)
     = Inl ValueError
   \<and> (\<exists>hp'. yolact_segm_postprocess resize
         \<lparr>cells = (\<lambda>a. if a = 0 then \<lparr>shape = [1, 4], elems = [0, 0, 1, 1]\<rparr>
                     else if a = 1 then \<lparr>shape = [1], elems = [2 / 5]\<rparr>
                     else \<lparr>shape = [1], elems = [1]\<rparr>),
            next_free = 3\<rparr>
         0 \<lparr>shape = [1, 1], elems = [1]\<rparr> 1 2 \<lparr>shape = [1, 1, 1], elems = [1]\<rparr> 2 2 (1 / 2) 0 0
       = Inr (hp', PyEmptyList))"
proof (intro allI)
  fix tie :: tie_order and resize :: resize_fn
  let ?hp = "\<lparr>cells = (\<lambda>a. if a = 0 then \<lparr>shape = [1, 1, 4], elems = [0, 0, 1, 1]\<rparr>
                     else if a = 1 then \<lparr>shape = [1, 1, 2], elems = [2 / 5, 1 / 10]\<rparr>
                     else if a = 2 then \<lparr>shape = [1, 1, 1], elems = [1]\<rparr>
                     else \<lparr>shape = [1, 1, 1, 1], elems = [1]\<rparr>),
            next_free = 4\<rparr>"
  let ?outs = "[''boxes'' \<mapsto> 0, ''conf'' \<mapsto> 1, ''mask'' \<mapsto> 2, ''proto'' \<mapsto> 3] :: string \<Rightarrow> nat option"
  let ?hp2 = "\<lparr>cells = (\<lambda>a. if a = 0 then \<lparr>shape = [1, 4], elems = [0, 0, 1, 1]\<rparr>
                     else if a = 1 then \<lparr>shape = [1], elems = [2 / 5]\<rparr>
                     else \<lparr>shape = [1], elems = [1]\<rparr>),
            next_free = 3\<rparr>"
  let ?coeffs = "\<lparr>shape = [1, 1], elems = [1 :: real]\<rparr>"
  have k: "?outs ''boxes'' = Some 0" "?outs ''conf'' = Some 1" "?outs ''mask'' = Some 2"
    "?outs ''proto'' = Some 3"
    by simp_all
  have b: "nd_first (cells ?hp 0) = Inr \<lparr>shape = [1, 4], elems = [0, 0, 1, 1]\<rparr>"
    "nd_first (cells ?hp 1) = Inr \<lparr>shape = [1, 2], elems = [2 / 5, 1 / 10]\<rparr>"
    "nd_first (cells ?hp 2) = Inr \<lparr>shape = [1, 1], elems = [1]\<rparr>"
    "nd_first (cells ?hp 3) = Inr \<lparr>shape = [1, 1, 1], elems = [1]\<rparr>"
    by (simp_all add: nd_first_def)
  have c: "shape \<lparr>shape = [1, 2], elems = [2 / 5, 1 / 10 :: real]\<rparr> = [1, 2]" by simp
  have f: "(0 :: nat) < 2" by simp
  have low: "\<forall>i<1. \<forall>cls<2. elems \<lparr>shape = [1, 2], elems = [2 / 5, 1 / 10 :: real]\<rparr> ! (i * 2 + cls)
      \<le> 1 / 2"
    by (simp add: less_Suc_eq numeral_2_eq_2)
  have t: "(0 :: real) < 1 / 2" by simp
  have s: "shape (cells ?hp2 1) = [1]" "length (elems (cells ?hp2 1)) = 1"
    "\<forall>v\<in>set (elems (cells ?hp2 1)). v \<le> 1 / 2"
    by simp_all
  have sh: "shape (cells ?hp2 0) = 1 # [4]" "shape ?coeffs = 1 # [1]" "shape (cells ?hp2 2) = 1 # []"
    by simp_all
  have u: "0 < next_free ?hp2" "2 < next_free ?hp2" by simp_all
  from yolact_no_detections[OF k b c f f low t s sh u]
  show "yolact_postprocess tie resize ?hp ?outs 1 1 2 2 2 2 (1 / 2) = Inl ValueError
   \<and> (\<exists>hp'. yolact_segm_postprocess resize ?hp2
         0 ?coeffs 1 2 \<lparr>shape = [1, 1, 1], elems = [1]\<rparr> 2 2 (1 / 2) 0 0
       = Inr (hp', PyEmptyList))"
    by blast
qed







end
